theory Spec2Isabelle
  imports Complex_Main "HOL-Library.Char_ord" "HOL-Library.List_Lexorder" "HOL-Library.Multiset"
begin

section \<open>Python string operations used by app.py\<close>

text \<open>
  Strings are modelled as \<open>string\<close> (lists of 8-bit characters), that is, the model covers
  single-byte (ASCII) text. Comparison of strings is lexicographic on character codes, as
  Python's is.
\<close>

definition startswith :: "string \<Rightarrow> string \<Rightarrow> bool" where
  "startswith s p = (take (length p) s = p)"

definition endswith :: "string \<Rightarrow> string \<Rightarrow> bool" where
  "endswith s p = (length p \<le> length s \<and> drop (length s - length p) s = p)"

text \<open>\<open>s.rstrip(chars)\<close>, \<open>s.lstrip(chars)\<close>, \<open>s.strip(chars)\<close>.\<close>

definition rstrip_chars :: "string \<Rightarrow> string \<Rightarrow> string" where
  "rstrip_chars chars s = rev (dropWhile (\<lambda>c. c \<in> set chars) (rev s))"

definition lstrip_chars :: "string \<Rightarrow> string \<Rightarrow> string" where
  "lstrip_chars chars s = dropWhile (\<lambda>c. c \<in> set chars) s"

definition strip_chars :: "string \<Rightarrow> string \<Rightarrow> string" where
  "strip_chars chars s = rstrip_chars chars (lstrip_chars chars s)"

text \<open>
  \<open>s.strip()\<close> without argument removes whitespace; among single-byte characters Python
  counts the codes 9 to 13, 28 to 31 and 32 as whitespace.
\<close>

definition is_space :: "char \<Rightarrow> bool" where
  "is_space c = (let n = (of_char c :: nat) in (9 \<le> n \<and> n \<le> 13) \<or> (28 \<le> n \<and> n \<le> 32))"

definition strip_ws :: "string \<Rightarrow> string" where
  "strip_ws s = rev (dropWhile is_space (rev (dropWhile is_space s)))"

text \<open>\<open>s.split(sep)\<close> for a one-character separator: always at least one segment.\<close>

fun split :: "char \<Rightarrow> string \<Rightarrow> string list" where
  "split sep [] = [[]]"
| "split sep (c # cs) =
     (if c = sep then [] # split sep cs
      else (case split sep cs of [] \<Rightarrow> [[c]] | w # ws \<Rightarrow> (c # w) # ws))"

text \<open>\<open>sep.join(parts)\<close>.\<close>

fun join :: "string \<Rightarrow> string list \<Rightarrow> string" where
  "join sep [] = []"
| "join sep [x] = x"
| "join sep (x # y # ys) = x @ sep @ join sep (y # ys)"

text \<open>\<open>s.lower()\<close> on single-byte text: the letters A to Z are mapped to a to z.\<close>

definition lower_char :: "char \<Rightarrow> char" where
  "lower_char c = (let n = (of_char c :: nat) in if 65 \<le> n \<and> n \<le> 90 then char_of (n + 32) else c)"

definition lower :: "string \<Rightarrow> string" where
  "lower s = map lower_char s"

text \<open>\<open>xs.index(x)\<close>: the first position of \<open>x\<close>; Python raises ValueError when there is none.\<close>

fun py_index :: "'a list \<Rightarrow> 'a \<Rightarrow> nat option" where
  "py_index [] x = None"
| "py_index (y # ys) x = (if y = x then Some 0 else map_option Suc (py_index ys x))"

section \<open>Helpers of app.py\<close>

definition ALLOWED_EXTS :: "string list" where
  "ALLOWED_EXTS = [''.csv'', ''.xls'', ''.xlsx'']"

definition EXPECTED_TIME_SERIES :: "string set" where
  "EXPECTED_TIME_SERIES = {''Frame Number'', ''Procrustes Similarity'', ''Joint Angle Distance''}"

definition detect_scheme :: "string \<Rightarrow> string" where
  "detect_scheme url =
     (if url = [] then []
      else if startswith url ''s3://'' then ''s3''
      else if startswith url ''gs://'' then ''gs''
      else [])"

definition clean_prefix :: "string \<Rightarrow> string" where
  "clean_prefix path =
     (if path = [] then path
      else rstrip_chars ''/'' (strip_ws path) @ ''/'')"

definition strip_scheme :: "string \<Rightarrow> string \<times> string" where
  "strip_scheme url =
     (if startswith url ''s3://'' then (''s3'', drop (length ''s3://'') url)
      else if startswith url ''gs://'' then (''gs'', drop (length ''gs://'') url)
      else ([], url))"

definition rebuild_url :: "string \<Rightarrow> string \<Rightarrow> string" where
  "rebuild_url scheme without_scheme = scheme @ ''://'' @ without_scheme"

definition basename_from_path :: "string \<Rightarrow> string" where
  "basename_from_path p0 =
     (let p = rstrip_chars ''/'' p0
      in if CHR ''/'' \<in> set p then rev (takeWhile (\<lambda>c. c \<noteq> CHR ''/'') (rev p)) else p)"

definition is_allowed_file :: "string \<Rightarrow> bool" where
  "is_allowed_file name = (let lname = lower name in list_ex (\<lambda>ext. endswith lname ext) ALLOWED_EXTS)"

section \<open>Storage accessors\<close>

text \<open>
  The file systems of s3fs and gcsfs are external. A file-system object is modelled by the
  constructor call that made it: the class and its keyword arguments. A Python dict is an
  association list with one entry per key.
\<close>

datatype gcs_token = TokenStr string | TokenJson string

datatype kwarg = KBool bool | KStr string | KNone | KDict "(string \<times> string) list" | KToken gcs_token

type_synonym pydict = "(string \<times> kwarg) list"

definition dict_set :: "string \<Rightarrow> kwarg \<Rightarrow> pydict \<Rightarrow> pydict" where
  "dict_set k v d =
     (if k \<in> fst ` set d then map (\<lambda>(k', v'). if k' = k then (k', v) else (k', v')) d
      else d @ [(k, v)])"

datatype filesystem = S3FileSystem pydict | GCSFileSystem gcs_token

datatype error = ValueError string | JSONDecodeError

text \<open>\<open>get_fs\<close>: the keyword arguments are passed in the order of the signature.\<close>

definition get_fs ::
  "string \<Rightarrow> bool \<Rightarrow> string \<Rightarrow> string \<Rightarrow> string \<Rightarrow> string \<Rightarrow> gcs_token option
    \<Rightarrow> error + filesystem" where
  "get_fs scheme anon aws_access_key_id aws_secret_access_key aws_session_token region_name gcs_token =
     (if scheme = ''s3'' then
        (if anon then Inr (S3FileSystem [(''anon'', KBool True)])
         else
           (let kwargs0 = [];
                kwargs1 =
                  (if aws_access_key_id \<noteq> [] \<and> aws_secret_access_key \<noteq> [] then
                     dict_set ''token'' (if aws_session_token \<noteq> [] then KStr aws_session_token else KNone)
                       (dict_set ''secret'' (KStr aws_secret_access_key)
                         (dict_set ''key'' (KStr aws_access_key_id) kwargs0))
                   else kwargs0);
                kwargs2 =
                  (if region_name \<noteq> [] then
                     dict_set ''client_kwargs'' (KDict [(''region_name'', region_name)]) kwargs1
                   else kwargs1)
            in Inr (S3FileSystem kwargs2)))
      else if scheme = ''gs'' then
        (let token =
               (if anon then TokenStr ''anon''
                else (case gcs_token of Some t \<Rightarrow> t | None \<Rightarrow> TokenStr ''google_default''))
         in Inr (GCSFileSystem token))
      else Inl (ValueError ''Unsupported scheme. Use s3:// or gs://''))"

definition build_storage_options ::
  "string \<Rightarrow> bool \<Rightarrow> string \<Rightarrow> string \<Rightarrow> string \<Rightarrow> string \<Rightarrow> gcs_token option \<Rightarrow> pydict" where
  "build_storage_options scheme anon aws_access_key_id aws_secret_access_key aws_session_token region_name gcs_token =
     (if scheme = ''s3'' then
        (let opts0 = [(''anon'', KBool anon)];
             opts1 =
               (if \<not> anon then
                  (let o1 = (if aws_access_key_id \<noteq> [] \<and> aws_secret_access_key \<noteq> [] then
                               dict_set ''secret'' (KStr aws_secret_access_key)
                                 (dict_set ''key'' (KStr aws_access_key_id) opts0)
                             else opts0)
                   in if aws_session_token \<noteq> [] then dict_set ''token'' (KStr aws_session_token) o1 else o1)
                else opts0)
         in if region_name \<noteq> [] then
              dict_set ''client_kwargs'' (KDict [(''region_name'', region_name)]) opts1
            else opts1)
      else if scheme = ''gs'' then
        (let token =
               (if anon then TokenStr ''anon''
                else (case gcs_token of Some t \<Rightarrow> t | None \<Rightarrow> TokenStr ''google_default''))
         in [(''token'', KToken token)])
      else [])"

text \<open>
  How a block of the script ends: it runs to its end, it halts the run with \<open>st.stop()\<close>,
  or an exception leaves it.
\<close>

datatype outcome = Completed | Stopped | Raised error

section \<open>Listing\<close>

text \<open>
  One entry of \<open>fs.ls(path, detail=True)\<close> is a dict; the code reads the keys \<open>name\<close>,
  \<open>Key\<close> and \<open>type\<close> with \<open>dict.get\<close>, which gives None for a missing key.
\<close>

record item =
  it_name :: "string option"
  it_Key :: "string option"
  it_type :: "string option"

text \<open>
  The listing call is the outside world: \<open>ls fs path\<close> is either the exception raised
  (\<open>Inl\<close> of its text, what \<open>str(e)\<close> gives) or the entries returned.
\<close>

type_synonym lister = "filesystem \<Rightarrow> string \<Rightarrow> string + item list"

text \<open>What the page shows through \<open>st.error\<close>, \<open>st.warning\<close>, \<open>st.info\<close> and \<open>st.write\<close>.\<close>

datatype message = StError string | StWarning string | StInfo string | StWrite string

text \<open>\<open>it.get('name') or it.get('Key') or ''\<close>: the first value that is present and not empty.\<close>

definition item_name :: "item \<Rightarrow> string" where
  "item_name it =
     (case it_name it of
        Some n \<Rightarrow> if n \<noteq> [] then n else (case it_Key it of Some k \<Rightarrow> k | None \<Rightarrow> [])
      | None \<Rightarrow> (case it_Key it of Some k \<Rightarrow> k | None \<Rightarrow> []))"

text \<open>
  \<open>dirs_set\<close> is a Python set. It is modelled as a list without repetitions, in the order of
  first insertion; Python leaves the iteration order of a set open, which can only change the
  relative position of entries with the same sort key in the sorted result.
\<close>

definition set_add :: "'a \<Rightarrow> 'a list \<Rightarrow> 'a list" where
  "set_add x xs = (if x \<in> set xs then xs else xs @ [x])"

text \<open>The body of the loop over the entries, as a step on (\<open>dirs_set\<close>, \<open>files\<close>).\<close>

definition list_step :: "string \<Rightarrow> string \<Rightarrow> string list \<times> string list \<Rightarrow> item \<Rightarrow> string list \<times> string list" where
  "list_step scheme without acc it =
     (let dirs_set = fst acc; files = snd acc;
          name = item_name it;
          full_without = name;
          rel = (if startswith full_without without then drop (length without) full_without
                 else full_without)
      in if it_type it = Some ''directory'' \<or> endswith full_without ''/'' then
           (set_add (rebuild_url scheme (rstrip_chars ''/'' full_without @ ''/'')) dirs_set, files)
         else if CHR ''/'' \<in> set rel then
           (let child = takeWhile (\<lambda>c. c \<noteq> CHR ''/'') rel
            in (set_add (rebuild_url scheme
                  (rstrip_chars ''/'' without @ ''/'' @ strip_chars ''/'' child @ ''/'')) dirs_set,
                files))
         else
           (let full_url = rebuild_url scheme full_without
            in if is_allowed_file full_url then (dirs_set, files @ [full_url])
               else (dirs_set, files)))"

text \<open>The text of the error shown: \<open>f"Failed to list '{prefix}': {e}"\<close>.\<close>

definition failed_to_list :: "string \<Rightarrow> string \<Rightarrow> string" where
  "failed_to_list prefix cause = ''Failed to list '' @ [CHR 0x27] @ prefix @ [CHR 0x27] @ '': '' @ cause"

text \<open>
  \<open>list_cloud\<close> returns the messages it showed, the directories and the files.
  \<open>sorted\<close> and \<open>list.sort\<close> are stable, as \<open>sort_key\<close> is.
\<close>

definition list_cloud :: "lister \<Rightarrow> filesystem \<Rightarrow> string \<Rightarrow> string \<Rightarrow> message list \<times> string list \<times> string list" where
  "list_cloud ls fs scheme prefix =
     (let without = snd (strip_scheme prefix)
      in case ls fs without of
           Inl e \<Rightarrow> ([StError (failed_to_list prefix e)], [], [])
         | Inr items \<Rightarrow>
             (let acc = foldl (list_step scheme without) ([], []) items;
                  dirs = sort_key lower (fst acc);
                  files = sort_key lower (snd acc)
              in ([], dirs, files)))"

text \<open>
  The entries of a listing as the specification sorts them, read off one entry: \<open>rel_name\<close> is
  the name with the prefix body removed when it starts with it; an entry is a file entry
  when it is not marked as a directory, its name does not end in a slash, \<open>rel_name\<close> holds no
  slash and its URL passes the file filter; it is a directory entry when it is marked as a
  directory, or its name ends in a slash, or \<open>rel_name\<close> holds a slash, and \<open>dir_url\<close> is then
  the directory it stands for.
\<close>

definition rel_name :: "string \<Rightarrow> item \<Rightarrow> string" where
  "rel_name without it =
     (if startswith (item_name it) without then drop (length without) (item_name it)
      else item_name it)"

definition marked_dir :: "item \<Rightarrow> bool" where
  "marked_dir it = (it_type it = Some ''directory'' \<or> endswith (item_name it) ''/'')"

definition file_entry :: "string \<Rightarrow> string \<Rightarrow> item \<Rightarrow> bool" where
  "file_entry scheme without it =
     (\<not> marked_dir it \<and> CHR ''/'' \<notin> set (rel_name without it)
      \<and> is_allowed_file (rebuild_url scheme (item_name it)))"

definition dir_entry :: "string \<Rightarrow> item \<Rightarrow> bool" where
  "dir_entry without it = (marked_dir it \<or> CHR ''/'' \<in> set (rel_name without it))"

definition dir_url :: "string \<Rightarrow> string \<Rightarrow> item \<Rightarrow> string" where
  "dir_url scheme without it =
     (if marked_dir it then rebuild_url scheme (rstrip_chars ''/'' (item_name it) @ ''/'')
      else rebuild_url scheme (rstrip_chars ''/'' without @ ''/''
             @ strip_chars ''/'' (takeWhile (\<lambda>c. c \<noteq> CHR ''/'') (rel_name without it)) @ ''/''))"

section \<open>Choosing a chart\<close>

text \<open>
  A loaded DataFrame is modelled by what the choice of a chart reads: the column labels in
  their order, for each column its dtype and its number of distinct values, and the number
  of rows. \<open>pd.api.types.is_numeric_dtype\<close> holds of the integer, float, complex and
  boolean dtypes; text columns have the dtype \<open>object\<close>; every other dtype (dates,
  categories) is neither. The loader gives every column its own label.
\<close>

datatype dtype = NumericDtype | ObjectDtype | OtherDtype

record column =
  col_dtype :: dtype
  col_nunique :: nat

record dataframe =
  df_columns :: "(string \<times> column) list"
  df_len :: nat

definition columns :: "dataframe \<Rightarrow> string list" where
  "columns df = map fst (df_columns df)"

text \<open>\<open>df[c]\<close>: the column with label \<open>c\<close>; None stands for the KeyError of a missing label.\<close>

definition df_get :: "dataframe \<Rightarrow> string \<Rightarrow> column option" where
  "df_get df c = map_of (df_columns df) c"

definition is_numeric_dtype :: "column option \<Rightarrow> bool" where
  "is_numeric_dtype col = (case col of Some c \<Rightarrow> col_dtype c = NumericDtype | None \<Rightarrow> False)"

text \<open>
  \<open>df[c].dtype == 'object' and df[c].nunique() <= max(50, int(len(df)*0.8))\<close>. The product
  \<open>len(df)*0.8\<close> is a float; truncated by \<open>int\<close> it is the integer quotient of \<open>4 * len(df)\<close>
  by 5 for every row count a table in memory can have.
\<close>

definition is_cand_label :: "dataframe \<Rightarrow> column option \<Rightarrow> bool" where
  "is_cand_label df col =
     (case col of
        Some c \<Rightarrow> col_dtype c = ObjectDtype \<and> col_nunique c \<le> max 50 ((df_len df * 4) div 5)
      | None \<Rightarrow> False)"

text \<open>
  What is chosen for one table: the call made to plotly express, or the message shown in its
  place. A value of this type is the call, not what plotly makes of it; the exceptions that
  plotly raises on a call are in \<open>visualize_file\<close> below.
\<close>

datatype rendering =
    PxLineXY string "string list" string
  | PxBar string string string
  | PxLine "string list" string
  | Message message

definition plot_bar_interactive :: "dataframe \<Rightarrow> string \<Rightarrow> string \<Rightarrow> string \<Rightarrow> rendering" where
  "plot_bar_interactive df label_col stat_col title = PxBar label_col stat_col title"

definition validate_and_plot_bar_interactive :: "dataframe \<Rightarrow> string \<Rightarrow> string \<Rightarrow> string \<Rightarrow> rendering" where
  "validate_and_plot_bar_interactive df label_col stat_col title =
     (if stat_col \<notin> set (columns df) \<or> label_col \<notin> set (columns df) then
        Message (StWarning ''Selected columns not found in the data.'')
      else if \<not> is_numeric_dtype (df_get df stat_col) then
        Message (StWarning (''The selected statistic column '' @ [CHR 0x27] @ stat_col @ [CHR 0x27]
                            @ '' is not numeric.''))
      else plot_bar_interactive df label_col stat_col title)"

text \<open>
  The two line charts. Each function makes one call of \<open>px.line\<close> with no test of the columns
  before it and no \<open>try\<close> around it; the value returned here is that call.
\<close>

definition plot_csv_line_chart :: "dataframe \<Rightarrow> rendering" where
  "plot_csv_line_chart df =
     PxLineXY ''Frame Number'' [''Procrustes Similarity'', ''Joint Angle Distance''] ''Metrics over Frames''"

definition plot_generic_lines :: "dataframe \<Rightarrow> string \<Rightarrow> rendering" where
  "plot_generic_lines df title =
     (let num_cols = filter (\<lambda>c. is_numeric_dtype (df_get df c)) (columns df)
      in if num_cols = [] then Message (StInfo ''No numeric columns to plot.'')
         else PxLine num_cols title)"

text \<open>The title of the bar chart: \<open>f"Bar: {label_col} vs {stat_col}"\<close>.\<close>

definition bar_title :: "string \<Rightarrow> string \<Rightarrow> string" where
  "bar_title label_col stat_col = ''Bar: '' @ label_col @ '' vs '' @ stat_col"

text \<open>The choice made in the loop over the selected files, for one table that was read.\<close>

definition visualize_df :: "dataframe \<Rightarrow> rendering" where
  "visualize_df df =
     (if EXPECTED_TIME_SERIES \<subseteq> set (columns df) then plot_csv_line_chart df
      else
        (let num_cols = filter (\<lambda>c. is_numeric_dtype (df_get df c)) (columns df);
             cand_label_cols = filter (\<lambda>c. is_cand_label df (df_get df c)) (columns df)
         in if num_cols \<noteq> [] \<and> cand_label_cols \<noteq> [] then
              (let label_col = hd cand_label_cols;
                   stat_col = hd num_cols
               in validate_and_plot_bar_interactive df label_col stat_col
                    (bar_title label_col stat_col))
            else plot_generic_lines df ''Line plot (numeric columns)''))"

text \<open>
  The columns of a table as the specification describes them, read off the table itself:
  the numeric columns, and the text columns whose number of distinct values is at most
  max(50, 0.8 * n) for n rows, both in the order of the columns.
\<close>

definition numeric_columns :: "dataframe \<Rightarrow> string list" where
  "numeric_columns df = map fst (filter (\<lambda>e. col_dtype (snd e) = NumericDtype) (df_columns df))"

definition label_columns :: "dataframe \<Rightarrow> string list" where
  "label_columns df =
     map fst (filter (\<lambda>e. col_dtype (snd e) = ObjectDtype
                 \<and> real (col_nunique (snd e)) \<le> max 50 (0.8 * real (df_len df))) (df_columns df))"

section \<open>Drawing the chosen chart\<close>

text \<open>
  plotly express is outside the repository. Of its behaviour the model holds the check that
  \<open>px.line\<close> makes on wide-form data, the form of both line charts here (a table of value
  columns, or a list of columns for \<open>y\<close>): it reads \<open>dtype.kind\<close> of each value column, counts
  the kinds \<open>i\<close>, \<open>f\<close> and \<open>u\<close> as one type "number", and raises ValueError when a column has
  another type than the first. The kind of a column is the one-letter code of its dtype
  (\<open>i\<close> integer, \<open>u\<close> unsigned, \<open>f\<close> float, \<open>c\<close> complex, \<open>b\<close> boolean, \<open>O\<close> object); it is
  given beside the table, as only plotly reads it.
\<close>

type_synonym kinds = "string \<Rightarrow> char"

definition px_type :: "char \<Rightarrow> string" where
  "px_type k = (if k \<in> set ''ifu'' then ''number'' else [k])"

definition px_wide_check :: "kinds \<Rightarrow> string list \<Rightarrow> error option" where
  "px_wide_check kind cols =
     (case cols of
        [] \<Rightarrow> None
      | c # cs \<Rightarrow>
          if list_all (\<lambda>d. px_type (kind d) = px_type (kind c)) cs then None
          else Some (ValueError
                 ''Plotly Express cannot process wide-form data with columns of different type.''))"

definition plotly_express :: "kinds \<Rightarrow> dataframe \<Rightarrow> rendering \<Rightarrow> error option" where
  "plotly_express kind df call =
     (case call of
        PxLineXY x ys title \<Rightarrow> px_wide_check kind ys
      | PxBar label_col stat_col title \<Rightarrow> None
      | PxLine cols title \<Rightarrow> px_wide_check kind cols
      | Message m \<Rightarrow> None)"

text \<open>
  The body of the loop over the selected files, for one file. \<open>read_any\<close> is the loader (the
  exception it raises, or the table) and \<open>px\<close> the plotting library (the exception it raises
  on a call, if any). An exception of the loader is caught and shown, and the loop goes on;
  the calls that draw are outside the \<open>try\<close>, so an exception of the plotting library leaves
  the script. The result is the messages shown, the choice made and how the body ended.
\<close>

definition visualize_file ::
  "(string \<Rightarrow> string + dataframe) \<Rightarrow> (dataframe \<Rightarrow> rendering \<Rightarrow> error option) \<Rightarrow> string
    \<Rightarrow> message list \<times> rendering option \<times> outcome" where
  "visualize_file read_any px fp =
     (case read_any fp of
        Inl e \<Rightarrow> ([StError (''Failed to read '' @ fp @ '': '' @ e)], None, Completed)
      | Inr df \<Rightarrow>
          (case visualize_df df of
             Message m \<Rightarrow> ([m], Some (Message m), Completed)
           | call \<Rightarrow>
               (case px df call of
                  Some e \<Rightarrow> ([], Some call, Raised e)
                | None \<Rightarrow> ([], Some call, Completed))))"

section \<open>The session: connecting\<close>

text \<open>
  \<open>st.session_state\<close> is a dict with the keys below; a key that was never set reads as None.
\<close>

record session_state =
  ss_default_path :: "string option"
  ss_prefix :: "string option"
  ss_fs :: "filesystem option"
  ss_scheme :: "string option"
  ss_storage_options :: "pydict option"

definition initial_state :: session_state where
  "initial_state = \<lparr>ss_default_path = None, ss_prefix = None, ss_fs = None, ss_scheme = None,
     ss_storage_options = None\<rparr>"

text \<open>
  An uploaded credentials file is modelled by what \<open>json.load\<close> makes of it: None when it
  raises a decode error, otherwise the value read (kept as text).
\<close>

datatype uploaded_file = UploadedFile "string option"

text \<open>The values of the sidebar widgets in one run of the script.\<close>

record widgets =
  w_bucket_input :: string
  w_public :: bool
  w_region :: string
  w_access_key_id :: string
  w_secret_access_key :: string
  w_session_token :: string
  w_creds_file :: "uploaded_file option"
  w_connect :: bool

text \<open>
  The variables the sidebar code assigns. A widget exists only in the branch that creates
  it; a variable that a branch leaves unassigned is not read by the connect code of that
  branch and is given the empty value here.
\<close>

record sidebar_vars =
  sv_scheme :: string
  sv_public :: bool
  sv_region_name :: string
  sv_aws_access_key_id :: string
  sv_aws_secret_access_key :: string
  sv_aws_session_token :: string
  sv_creds_file :: "uploaded_file option"

definition sidebar :: "widgets \<Rightarrow> sidebar_vars \<times> message list" where
  "sidebar w =
     (let scheme = detect_scheme (w_bucket_input w)
      in if scheme = ''s3'' then
           (\<lparr>sv_scheme = scheme, sv_public = w_public w, sv_region_name = w_region w,
              sv_aws_access_key_id = (if \<not> w_public w then w_access_key_id w else []),
              sv_aws_secret_access_key = (if \<not> w_public w then w_secret_access_key w else []),
              sv_aws_session_token = (if \<not> w_public w then w_session_token w else []),
              sv_creds_file = None\<rparr>, [])
         else if scheme = ''gs'' then
           (\<lparr>sv_scheme = scheme, sv_public = w_public w, sv_region_name = [],
              sv_aws_access_key_id = [], sv_aws_secret_access_key = [], sv_aws_session_token = [],
              sv_creds_file = (if \<not> w_public w then w_creds_file w else None)\<rparr>, [])
         else
           (\<lparr>sv_scheme = scheme, sv_public = True, sv_region_name = [],
              sv_aws_access_key_id = [], sv_aws_secret_access_key = [], sv_aws_session_token = [],
              sv_creds_file = None\<rparr>,
            [StInfo ''Enter a path starting with gs:// (Google Cloud) or s3:// (AWS).'']))"

text \<open>The error shown when neither a credentials file nor default credentials are there.\<close>

definition missing_credentials :: string where
  "missing_credentials = ''Upload a Service Account JSON or run '' @ [CHR 0x27]
     @ ''gcloud auth application-default login'' @ [CHR 0x27] @ '' before connecting.''"

text \<open>
  The connect block (\<open>if connect and scheme:\<close>). \<open>environ\<close> is \<open>os.environ.get\<close>. The result
  is the session state as the block leaves it, the messages shown and how the block ended.
\<close>

definition connect_handler ::
  "(string \<Rightarrow> string option) \<Rightarrow> widgets \<Rightarrow> session_state \<Rightarrow> session_state \<times> message list \<times> outcome" where
  "connect_handler environ w st =
     (let sv = fst (sidebar w); msgs = snd (sidebar w); scheme = sv_scheme sv; public = sv_public sv
      in if w_connect w \<and> scheme \<noteq> [] then
           (let st1 = st\<lparr>ss_default_path := Some (w_bucket_input w),
                          ss_prefix := Some (clean_prefix (w_bucket_input w))\<rparr>
            in if scheme = ''s3'' then
                 (case get_fs ''s3'' public (sv_aws_access_key_id sv) (sv_aws_secret_access_key sv)
                         (sv_aws_session_token sv) (sv_region_name sv) None of
                    Inl e \<Rightarrow> (st1, msgs, Raised e)
                  | Inr fs \<Rightarrow>
                      (st1\<lparr>ss_fs := Some fs, ss_scheme := Some ''s3'',
                           ss_storage_options := Some (build_storage_options ''s3'' public
                             (sv_aws_access_key_id sv) (sv_aws_secret_access_key sv)
                             (sv_aws_session_token sv) (sv_region_name sv) None)\<rparr>,
                       msgs, Completed))
               else if scheme = ''gs'' then
                 (if \<not> public \<and> sv_creds_file sv = None
                      \<and> environ ''GOOGLE_APPLICATION_CREDENTIALS'' = None then
                    (st1, msgs @ [StError missing_credentials], Stopped)
                  else
                    (case (if public then Inr (TokenStr ''anon'')
                           else (case sv_creds_file sv of
                                   Some (UploadedFile None) \<Rightarrow> Inl JSONDecodeError
                                 | Some (UploadedFile (Some j)) \<Rightarrow> Inr (TokenJson j)
                                 | None \<Rightarrow> Inr (TokenStr ''google_default''))) of
                       Inl e \<Rightarrow> (st1, msgs, Raised e)
                     | Inr token \<Rightarrow>
                         (case get_fs ''gs'' public [] [] [] [] (Some token) of
                            Inl e \<Rightarrow> (st1, msgs, Raised e)
                          | Inr fs \<Rightarrow>
                              (st1\<lparr>ss_fs := Some fs, ss_scheme := Some ''gs'',
                                   ss_storage_options := Some [(''token'', KToken token)]\<rparr>,
                               msgs, Completed))))
               else (st1, msgs, Completed))
         else (st, msgs, Completed))"

text \<open>
  The values the main part of the script reads back from the session, and its test for
  showing the browser instead of the hint to connect.
\<close>

definition current_prefix :: "session_state \<Rightarrow> string" where
  "current_prefix st = (case ss_prefix st of Some p \<Rightarrow> p | None \<Rightarrow> [])"

definition current_scheme :: "session_state \<Rightarrow> string" where
  "current_scheme st = (case ss_scheme st of Some s \<Rightarrow> s | None \<Rightarrow> detect_scheme (current_prefix st))"

definition connected_state :: "session_state \<Rightarrow> bool" where
  "connected_state st = (\<not> (ss_fs st = None \<or> current_prefix st = [] \<or> current_scheme st = []))"

section \<open>The session: browsing\<close>

text \<open>
  The button to go up one level. \<open>new_without\<close> is the new body that it computes from the body
  \<open>without\<close> of the current prefix, \<open>go_up\<close> the new prefix.
\<close>

definition new_without :: "string \<Rightarrow> string" where
  "new_without without =
     (let parts = split (CHR ''/'') (rstrip_chars ''/'' without)
      in if length parts > 1 then join ''/'' (butlast parts) @ ''/'' else hd parts @ ''/'')"

definition go_up :: "string \<Rightarrow> string" where
  "go_up cur_prefix =
     (let scheme = fst (strip_scheme cur_prefix);
          without = snd (strip_scheme cur_prefix)
      in rebuild_url scheme (new_without without))"

text \<open>
  Going up as the specification words it, on the scheme and the body of the prefix: split the
  body on \<open>/\<close>, ignore a trailing empty segment; with more than one segment left drop the
  last and join the rest with a trailing \<open>/\<close>, with exactly one left take it and \<open>/\<close>. With no
  segment left the wording gives no result.
\<close>

definition goUp_spec :: "string \<Rightarrow> string \<Rightarrow> string option" where
  "goUp_spec scheme body =
     (let segs = split (CHR ''/'') body;
          segs' = (if last segs = [] then butlast segs else segs)
      in if length segs' > 1 then Some (rebuild_url scheme (join ''/'' (butlast segs') @ ''/''))
         else if length segs' = 1 then Some (rebuild_url scheme (hd segs' @ ''/''))
         else None)"

text \<open>The widgets of the main part in one run.\<close>

record browse_inputs =
  up_button :: bool
  refresh_button :: bool
  folder_select :: string
  open_button :: bool
  file_multiselect :: "string list"

record view =
  v_state :: session_state
  v_messages :: "message list"
  v_dirs :: "string list"
  v_files :: "string list"
  v_selected_files :: "string list"
  v_outcome :: outcome

definition folder_names :: "string list \<Rightarrow> string list" where
  "folder_names dirs = map (\<lambda>d. basename_from_path (rstrip_chars ''/'' d)) dirs"

definition file_labels :: "string list \<Rightarrow> string list" where
  "file_labels files = map basename_from_path files"

text \<open>The text of the ValueError that \<open>list.index\<close> raises for a string that is not there.\<close>

definition not_in_list :: "string \<Rightarrow> string" where
  "not_in_list x = [CHR 0x27] @ x @ [CHR 0x27] @ '' is not in list''"

text \<open>
  \<open>[file_labels.index(lbl) for lbl in selected_labels]\<close>, which raises at the first label that
  is not in the list.
\<close>

fun selected_indices :: "string list \<Rightarrow> string list \<Rightarrow> error + nat list" where
  "selected_indices labels [] = Inr []"
| "selected_indices labels (lbl # lbls) =
     (case py_index labels lbl of
        None \<Rightarrow> Inl (ValueError (not_in_list lbl))
      | Some i \<Rightarrow> (case selected_indices labels lbls of Inl e \<Rightarrow> Inl e | Inr is \<Rightarrow> Inr (i # is)))"

text \<open>
  The files section: the labels chosen in the multiselect are turned into files through the
  first position of each label; at most two files are kept.
\<close>

definition select_files ::
  "browse_inputs \<Rightarrow> session_state \<Rightarrow> message list \<Rightarrow> string list \<Rightarrow> string list \<Rightarrow> view" where
  "select_files inp st msgs dirs files =
     (if files = [] then
        \<lparr>v_state = st, v_messages = msgs @ [StWrite ''No CSV/Excel files in this folder.''],
         v_dirs = dirs, v_files = files, v_selected_files = [], v_outcome = Completed\<rparr>
      else
        (case selected_indices (file_labels files) (file_multiselect inp) of
           Inl e \<Rightarrow>
             \<lparr>v_state = st, v_messages = msgs, v_dirs = dirs, v_files = files,
              v_selected_files = [], v_outcome = Raised e\<rparr>
         | Inr is \<Rightarrow>
             \<lparr>v_state = st,
              v_messages =
                (if length (file_multiselect inp) > 2 then
                   msgs @ [StWarning ''You selected more than 2 files. Only the first 2 will be used.'']
                 else msgs),
              v_dirs = dirs, v_files = files,
              v_selected_files = take 2 (map (\<lambda>i. files ! i) is),
              v_outcome = Completed\<rparr>))"

text \<open>
  The main part of the script up to the selection of files: the test for a connection, the
  button to go up, the listing, the opening of a folder and the selection of files.
\<close>

definition browse :: "lister \<Rightarrow> browse_inputs \<Rightarrow> session_state \<Rightarrow> view" where
  "browse ls inp st =
     (case ss_fs st of
        None \<Rightarrow>
          \<lparr>v_state = st,
           v_messages = [StInfo ''Enter your bucket/prefix (gs:// or s3://) and click Connect.''],
           v_dirs = [], v_files = [], v_selected_files = [], v_outcome = Completed\<rparr>
      | Some fs \<Rightarrow>
          if current_prefix st = [] \<or> current_scheme st = [] then
            \<lparr>v_state = st,
             v_messages = [StInfo ''Enter your bucket/prefix (gs:// or s3://) and click Connect.''],
             v_dirs = [], v_files = [], v_selected_files = [], v_outcome = Completed\<rparr>
          else
            (let scheme0 = current_scheme st;
                 st1 = (if up_button inp then st\<lparr>ss_prefix := Some (go_up (current_prefix st))\<rparr> else st);
                 prefix1 = (if up_button inp then go_up (current_prefix st) else current_prefix st);
                 listing1 = list_cloud ls fs scheme0 prefix1;
                 msgs1 = fst listing1; dirs1 = fst (snd listing1); files1 = snd (snd listing1)
             in if dirs1 \<noteq> [] \<and> open_button inp \<and> folder_select inp \<noteq> ''(stay here)'' then
                  (case py_index (folder_names dirs1) (folder_select inp) of
                     None \<Rightarrow>
                       \<lparr>v_state = st1, v_messages = msgs1, v_dirs = dirs1, v_files = files1,
                        v_selected_files = [],
                        v_outcome = Raised (ValueError (not_in_list (folder_select inp)))\<rparr>
                   | Some idx \<Rightarrow>
                       (let st2 = st1\<lparr>ss_prefix := Some (dirs1 ! idx)\<rparr>;
                            listing2 = list_cloud ls fs scheme0 (dirs1 ! idx)
                        in select_files inp st2 (msgs1 @ fst listing2) (fst (snd listing2))
                             (snd (snd listing2))))
                else
                  select_files inp st1
                    (if dirs1 = [] then msgs1 @ [StWrite ''No subfolders.''] else msgs1) dirs1 files1))"

section \<open>Example inputs\<close>

text \<open>Tables, listings, sessions and widget values at which the theorems below are evaluated.\<close>

definition ex_two_numeric :: dataframe where
  "ex_two_numeric = \<lparr>df_columns = [(''A'', \<lparr>col_dtype = NumericDtype, col_nunique = 4\<rparr>),
                                   (''B'', \<lparr>col_dtype = NumericDtype, col_nunique = 2\<rparr>)], df_len = 4\<rparr>"

definition ex_all_text :: dataframe where
  "ex_all_text = \<lparr>df_columns = [(''Name'', \<lparr>col_dtype = ObjectDtype, col_nunique = 4\<rparr>),
                                (''City'', \<lparr>col_dtype = ObjectDtype, col_nunique = 2\<rparr>)], df_len = 4\<rparr>"

definition ex_label_value :: dataframe where
  "ex_label_value = \<lparr>df_columns = [(''Label'', \<lparr>col_dtype = ObjectDtype, col_nunique = 3\<rparr>),
                                   (''Value'', \<lparr>col_dtype = NumericDtype, col_nunique = 10\<rparr>)], df_len = 10\<rparr>"

definition ex_int_bool :: dataframe where
  "ex_int_bool = \<lparr>df_columns = [(''I'', \<lparr>col_dtype = NumericDtype, col_nunique = 3\<rparr>),
                                (''B'', \<lparr>col_dtype = NumericDtype, col_nunique = 2\<rparr>)], df_len = 3\<rparr>"

definition kinds_int_bool :: kinds where
  "kinds_int_bool c = (if c = ''I'' then CHR ''i'' else if c = ''B'' then CHR ''b'' else CHR ''O'')"

definition read_int_bool :: "string \<Rightarrow> string + dataframe" where
  "read_int_bool fp = Inr ex_int_bool"

definition read_fails :: "string \<Rightarrow> string + dataframe" where
  "read_fails fp = Inl ''No columns to parse from file''"

definition anon_s3 :: filesystem where
  "anon_s3 = S3FileSystem [(''anon'', KBool True)]"

definition mk_item :: "string \<Rightarrow> item" where
  "mk_item n = \<lparr>it_name = Some n, it_Key = None, it_type = Some ''file''\<rparr>"

definition ls_relative_keys :: lister where
  "ls_relative_keys fs path =
     (if path = ''bucket/a/'' then Inr (map mk_item [''a/b.csv'', ''a/c/d.csv'', ''a/e.txt''])
      else Inl ''not found'')"

definition ls_full_keys :: lister where
  "ls_full_keys fs path =
     (if path = ''bucket/a/'' then
        Inr (map mk_item [''bucket/a/b.csv'', ''bucket/a/c/d.csv'', ''bucket/a/e.txt''])
      else Inl ''not found'')"

definition ls_repeated :: lister where
  "ls_repeated fs path =
     (if path = ''bucket/'' then Inr (map mk_item [''bucket/x.csv'', ''bucket/x.csv''])
      else Inl ''not found'')"

definition mixed_case_names :: "string list" where
  "mixed_case_names = [''bucket/B.csv'', ''bucket/a.csv'', ''bucket/Z/k.csv'', ''bucket/m/x.csv'',
     ''bucket/Z/j.csv'', ''bucket/n.txt'']"

definition ls_mixed_case :: lister where
  "ls_mixed_case fs path =
     (if path = ''bucket/'' then Inr (map mk_item mixed_case_names) else Inl ''not found'')"

definition ls_denied :: lister where
  "ls_denied fs path = Inl ''Access Denied''"

definition ex_connected :: session_state where
  "ex_connected = \<lparr>ss_default_path = Some ''s3://bucket/x'', ss_prefix = Some ''s3://bucket/x/'',
     ss_fs = Some anon_s3, ss_scheme = Some ''s3'',
     ss_storage_options = Some [(''anon'', KBool True)]\<rparr>"

definition ex_refresh :: browse_inputs where
  "ex_refresh = \<lparr>up_button = False, refresh_button = True, folder_select = ''(stay here)'',
     open_button = False, file_multiselect = []\<rparr>"

definition empty_environ :: "string \<Rightarrow> string option" where
  "empty_environ k = None"

definition w_s3_no_keys :: widgets where
  "w_s3_no_keys = \<lparr>w_bucket_input = ''s3://bucket/data'', w_public = False, w_region = [],
     w_access_key_id = [], w_secret_access_key = [], w_session_token = [],
     w_creds_file = None, w_connect = True\<rparr>"

definition w_gs_no_creds :: widgets where
  "w_gs_no_creds = \<lparr>w_bucket_input = ''gs://bucket/data'', w_public = False, w_region = [],
     w_access_key_id = [], w_secret_access_key = [], w_session_token = [],
     w_creds_file = None, w_connect = True\<rparr>"

definition w_ftp :: widgets where
  "w_ftp = \<lparr>w_bucket_input = ''ftp://bucket/data'', w_public = True, w_region = [],
     w_access_key_id = [], w_secret_access_key = [], w_session_token = [],
     w_creds_file = None, w_connect = True\<rparr>"

definition ls_empty_segment :: lister where
  "ls_empty_segment fs path =
     (if path = ''bucket/a/'' then Inr [mk_item ''bucket/a//x.csv''] else Inl ''not found'')"

definition ex_deep :: session_state where
  "ex_deep = \<lparr>ss_default_path = Some ''s3://bucket/x/y'', ss_prefix = Some ''s3://bucket/x/y/'',
     ss_fs = Some anon_s3, ss_scheme = Some ''s3'',
     ss_storage_options = Some [(''anon'', KBool True)]\<rparr>"

definition ex_up :: browse_inputs where
  "ex_up = \<lparr>up_button = True, refresh_button = False, folder_select = ''(stay here)'',
     open_button = False, file_multiselect = []\<rparr>"






text \<open>The defining equations used to evaluate the examples.\<close>

lemmas list_eval = list_cloud_def failed_to_list_def strip_scheme_def startswith_def list_step_def item_name_def
  endswith_def rebuild_url_def set_add_def rstrip_chars_def strip_chars_def lstrip_chars_def
  is_allowed_file_def ALLOWED_EXTS_def lower_def lower_char_def mk_item_def

lemmas connect_eval = connect_handler_def sidebar_def detect_scheme_def startswith_def get_fs_def
  build_storage_options_def clean_prefix_def strip_ws_def is_space_def rstrip_chars_def
  initial_state_def connected_state_def current_prefix_def current_scheme_def dict_set_def

lemmas go_up_eval = go_up_def new_without_def goUp_spec_def strip_scheme_def startswith_def rebuild_url_def
  rstrip_chars_def endswith_def

section \<open>Round trip of scheme stripping\<close>

lemma startswith_append_drop: "startswith u p \<Longrightarrow> p @ drop (length p) u = u"
  unfolding startswith_def by (metis append_take_drop_id)

text \<open>
  Claim C9. For every URL \<open>u\<close> that begins with \<open>s3://\<close> or \<open>gs://\<close>, rebuilding the URL
  from the (scheme, body) pair returned by \<open>strip_scheme\<close> gives back \<open>u\<close> exactly.
\<close>

theorem rebuild_strip_scheme_roundtrip:
  assumes "startswith u ''s3://'' \<or> startswith u ''gs://''"
  shows "rebuild_url (fst (strip_scheme u)) (snd (strip_scheme u)) = u"
proof (cases "startswith u ''s3://''")
  case True
  then have "''s3://'' @ drop (length ''s3://'') u = u"
    by (rule startswith_append_drop)
  then have "''s3'' @ ''://'' @ drop (length ''s3://'') u = u" by simp
  with True show ?thesis by (simp add: strip_scheme_def rebuild_url_def)
next
  case False
  with assms have g: "startswith u ''gs://''" by simp
  then have "''gs://'' @ drop (length ''gs://'') u = u"
    by (rule startswith_append_drop)
  then have "''gs'' @ ''://'' @ drop (length ''gs://'') u = u" by simp
  with False g show ?thesis by (simp add: strip_scheme_def rebuild_url_def)
qed

theorem rebuild_strip_scheme_roundtrip_witness:
  "startswith ''s3://bucket/x/'' ''s3://''
   \<and> rebuild_url (fst (strip_scheme ''s3://bucket/x/'')) (snd (strip_scheme ''s3://bucket/x/''))
       = ''s3://bucket/x/''"
  using rebuild_strip_scheme_roundtrip [of "''s3://bucket/x/''"]
  by (simp add: startswith_def)

section \<open>Chart choice by tiers\<close>

lemma filter_lookup_distinct:
  "distinct (map fst xs) \<Longrightarrow>
   filter (\<lambda>c. P (map_of xs c)) (map fst xs) = map fst (filter (\<lambda>e. P (Some (snd e))) xs)"
proof (induction xs)
  case Nil
  then show ?case by simp
next
  case (Cons x xs)
  obtain k v where x: "x = (k, v)" by (cases x)
  from Cons.prems x have k: "k \<notin> fst ` set xs" and d: "distinct (map fst xs)" by auto
  have "filter (\<lambda>c. P (map_of ((k, v) # xs) c)) (map fst xs)
        = filter (\<lambda>c. P (map_of xs c)) (map fst xs)"
    using k by (intro filter_cong) auto
  with Cons.IH [OF d] x show ?case by simp
qed

lemma threshold_real: "(real k \<le> max 50 (0.8 * real n)) = (k \<le> max 50 ((n * 4) div 5))"
proof -
  have "(real k \<le> 0.8 * real n) = (5 * k \<le> 4 * n)"
  proof -
    have "(real k \<le> 0.8 * real n) = (real (5 * k) \<le> real (4 * n))" by (simp add: mult.commute)
    also have "\<dots> = (5 * k \<le> 4 * n)" by (simp only: of_nat_le_iff)
    finally show ?thesis .
  qed
  also have "\<dots> = (k \<le> (n * 4) div 5)" by arith
  finally have a: "(real k \<le> 0.8 * real n) = (k \<le> (n * 4) div 5)" .
  have b: "(real k \<le> 50) = (k \<le> 50)" by simp
  show ?thesis using a b by (simp add: le_max_iff_disj)
qed

lemma num_cols_eq:
  "distinct (columns df) \<Longrightarrow>
   filter (\<lambda>c. is_numeric_dtype (df_get df c)) (columns df) = numeric_columns df"
  unfolding columns_def df_get_def numeric_columns_def
  using filter_lookup_distinct [of "df_columns df" is_numeric_dtype]
  by (simp add: is_numeric_dtype_def)

lemma cand_cols_eq:
  "distinct (columns df) \<Longrightarrow>
   filter (\<lambda>c. is_cand_label df (df_get df c)) (columns df) = label_columns df"
proof -
  assume d: "distinct (columns df)"
  have a: "filter (\<lambda>c. is_cand_label df (map_of (df_columns df) c)) (map fst (df_columns df))
        = map fst (filter (\<lambda>e. is_cand_label df (Some (snd e))) (df_columns df))"
    using d filter_lookup_distinct [of "df_columns df" "is_cand_label df"]
    by (simp only: columns_def)
  have b: "\<And>e. is_cand_label df (Some (snd e))
        = (col_dtype (snd e) = ObjectDtype
            \<and> real (col_nunique (snd e)) \<le> max 50 (0.8 * real (df_len df)))"
    by (simp only: is_cand_label_def option.case threshold_real)
  show ?thesis
    by (simp only: columns_def df_get_def label_columns_def a b)
qed

lemma numeric_columns_mem:
  assumes "distinct (columns df)" and "c \<in> set (numeric_columns df)"
  shows "c \<in> set (columns df) \<and> is_numeric_dtype (df_get df c)"
proof -
  from assms have "c \<in> set (filter (\<lambda>c. is_numeric_dtype (df_get df c)) (columns df))"
    by (simp only: num_cols_eq)
  then show ?thesis by simp
qed

lemma label_columns_mem:
  assumes "distinct (columns df)" and "c \<in> set (label_columns df)"
  shows "c \<in> set (columns df)"
proof -
  from assms have "c \<in> set (filter (\<lambda>c. is_cand_label df (df_get df c)) (columns df))"
    by (simp only: cand_cols_eq)
  then show ?thesis by simp
qed

lemma visualize_df_tiers:
  assumes d: "distinct (columns df)"
  shows "visualize_df df =
     (if EXPECTED_TIME_SERIES \<subseteq> set (columns df) then
        PxLineXY ''Frame Number'' [''Procrustes Similarity'', ''Joint Angle Distance''] ''Metrics over Frames''
      else if numeric_columns df \<noteq> [] \<and> label_columns df \<noteq> [] then
        PxBar (hd (label_columns df)) (hd (numeric_columns df))
          (bar_title (hd (label_columns df)) (hd (numeric_columns df)))
      else if numeric_columns df = [] then Message (StInfo ''No numeric columns to plot.'')
      else PxLine (numeric_columns df) ''Line plot (numeric columns)'')"
proof (cases "EXPECTED_TIME_SERIES \<subseteq> set (columns df)")
  case True
  then show ?thesis by (simp add: visualize_df_def plot_csv_line_chart_def)
next
  case False
  show ?thesis
  proof (cases "numeric_columns df \<noteq> [] \<and> label_columns df \<noteq> []")
    case True
    then have "hd (numeric_columns df) \<in> set (numeric_columns df)"
      and "hd (label_columns df) \<in> set (label_columns df)" by simp_all
    then have ok: "hd (numeric_columns df) \<in> set (columns df)"
      "is_numeric_dtype (df_get df (hd (numeric_columns df)))"
      "hd (label_columns df) \<in> set (columns df)"
      using numeric_columns_mem [OF d] label_columns_mem [OF d] by blast+
    have "visualize_df df = validate_and_plot_bar_interactive df (hd (label_columns df))
        (hd (numeric_columns df)) (bar_title (hd (label_columns df)) (hd (numeric_columns df)))"
      using False True
      by (simp add: visualize_df_def num_cols_eq [OF d] cand_cols_eq [OF d] Let_def)
    also have "\<dots> = PxBar (hd (label_columns df)) (hd (numeric_columns df))
          (bar_title (hd (label_columns df)) (hd (numeric_columns df)))"
      using ok by (simp add: validate_and_plot_bar_interactive_def plot_bar_interactive_def)
    finally show ?thesis using False True by simp
  next
    case nb: False
    have "visualize_df df = plot_generic_lines df ''Line plot (numeric columns)''"
      using False nb
      by (auto simp add: visualize_df_def num_cols_eq [OF d] cand_cols_eq [OF d] Let_def)
    then show ?thesis using False nb
      by (auto simp add: plot_generic_lines_def num_cols_eq [OF d] Let_def)
  qed
qed

lemma find_hd_filter:
  "find P xs = Some x \<Longrightarrow> filter P xs \<noteq> [] \<and> hd (filter P xs) = x"
  by (induction xs) (auto split: if_splits)

text \<open>
  Claim C6. For every table whose column labels include Frame Number, Procrustes Similarity
  and Joint Angle Distance, the choice is the fixed line chart of the two metrics over
  Frame Number, whatever other columns there are and whatever the dtypes are.
\<close>

theorem fixed_time_series_chart:
  assumes "EXPECTED_TIME_SERIES \<subseteq> set (columns df)"
  shows "visualize_df df =
     PxLineXY ''Frame Number'' [''Procrustes Similarity'', ''Joint Angle Distance''] ''Metrics over Frames''"
  using assms by (simp add: visualize_df_def plot_csv_line_chart_def)

theorem fixed_time_series_chart_witness:
  "EXPECTED_TIME_SERIES \<subseteq> set (columns
      \<lparr>df_columns = [(''Extra'', \<lparr>col_dtype = ObjectDtype, col_nunique = 2\<rparr>),
                     (''Frame Number'', \<lparr>col_dtype = NumericDtype, col_nunique = 3\<rparr>),
                     (''Procrustes Similarity'', \<lparr>col_dtype = ObjectDtype, col_nunique = 3\<rparr>),
                     (''Joint Angle Distance'', \<lparr>col_dtype = OtherDtype, col_nunique = 3\<rparr>)],
       df_len = 3\<rparr>)
   \<and> visualize_df
      \<lparr>df_columns = [(''Extra'', \<lparr>col_dtype = ObjectDtype, col_nunique = 2\<rparr>),
                     (''Frame Number'', \<lparr>col_dtype = NumericDtype, col_nunique = 3\<rparr>),
                     (''Procrustes Similarity'', \<lparr>col_dtype = ObjectDtype, col_nunique = 3\<rparr>),
                     (''Joint Angle Distance'', \<lparr>col_dtype = OtherDtype, col_nunique = 3\<rparr>)],
       df_len = 3\<rparr>
     = PxLineXY ''Frame Number'' [''Procrustes Similarity'', ''Joint Angle Distance''] ''Metrics over Frames''"
  using fixed_time_series_chart [of
      "\<lparr>df_columns = [(''Extra'', \<lparr>col_dtype = ObjectDtype, col_nunique = 2\<rparr>),
                     (''Frame Number'', \<lparr>col_dtype = NumericDtype, col_nunique = 3\<rparr>),
                     (''Procrustes Similarity'', \<lparr>col_dtype = ObjectDtype, col_nunique = 3\<rparr>),
                     (''Joint Angle Distance'', \<lparr>col_dtype = OtherDtype, col_nunique = 3\<rparr>)],
       df_len = 3\<rparr>"]
  by (simp add: EXPECTED_TIME_SERIES_def columns_def)

text \<open>
  The choice in the last two tiers. For every loaded table (its column labels are distinct)
  that matches neither the fixed time-series tier nor the bar tier, the call chosen is the
  line chart over exactly the numeric columns of the table when there is one, and otherwise
  the notice "No numeric columns to plot." is shown; and for every loaded table the choice is
  the fixed line chart, a bar chart of a candidate label column and a numeric column, the
  line chart over the numeric columns, or that notice. What plotly makes of the call chosen
  is not part of this statement.
\<close>

lemma choice_generic_lines_or_no_chart:
  assumes "distinct (columns df)"
  shows "(\<not> EXPECTED_TIME_SERIES \<subseteq> set (columns df)
            \<and> \<not> (numeric_columns df \<noteq> [] \<and> label_columns df \<noteq> []) \<longrightarrow>
          visualize_df df =
            (if numeric_columns df \<noteq> [] then PxLine (numeric_columns df) ''Line plot (numeric columns)''
             else Message (StInfo ''No numeric columns to plot.'')))
       \<and> (visualize_df df =
             PxLineXY ''Frame Number'' [''Procrustes Similarity'', ''Joint Angle Distance''] ''Metrics over Frames''
          \<or> (\<exists>l v. l \<in> set (label_columns df) \<and> v \<in> set (numeric_columns df)
                \<and> visualize_df df = PxBar l v (bar_title l v))
          \<or> (numeric_columns df \<noteq> []
                \<and> visualize_df df = PxLine (numeric_columns df) ''Line plot (numeric columns)'')
          \<or> visualize_df df = Message (StInfo ''No numeric columns to plot.''))"
proof (intro conjI impI)
  assume "\<not> EXPECTED_TIME_SERIES \<subseteq> set (columns df)
            \<and> \<not> (numeric_columns df \<noteq> [] \<and> label_columns df \<noteq> [])"
  then show "visualize_df df =
            (if numeric_columns df \<noteq> [] then PxLine (numeric_columns df) ''Line plot (numeric columns)''
             else Message (StInfo ''No numeric columns to plot.''))"
    by (simp only: visualize_df_tiers [OF assms] if_False) simp
next
  show "visualize_df df =
             PxLineXY ''Frame Number'' [''Procrustes Similarity'', ''Joint Angle Distance''] ''Metrics over Frames''
          \<or> (\<exists>l v. l \<in> set (label_columns df) \<and> v \<in> set (numeric_columns df)
                \<and> visualize_df df = PxBar l v (bar_title l v))
          \<or> (numeric_columns df \<noteq> []
                \<and> visualize_df df = PxLine (numeric_columns df) ''Line plot (numeric columns)'')
          \<or> visualize_df df = Message (StInfo ''No numeric columns to plot.'')"
  proof (cases "\<not> EXPECTED_TIME_SERIES \<subseteq> set (columns df)
                 \<and> numeric_columns df \<noteq> [] \<and> label_columns df \<noteq> []")
    case True
    then have "hd (label_columns df) \<in> set (label_columns df)"
      and "hd (numeric_columns df) \<in> set (numeric_columns df)" by simp_all
    moreover from True have "visualize_df df = PxBar (hd (label_columns df)) (hd (numeric_columns df))
          (bar_title (hd (label_columns df)) (hd (numeric_columns df)))"
      by (simp add: visualize_df_tiers [OF assms])
    ultimately show ?thesis by blast
  next
    case False
    then show ?thesis by (auto simp add: visualize_df_tiers [OF assms])
  qed
qed

lemma choice_generic_lines_or_no_chart_example:
  "distinct (columns ex_two_numeric)
   \<and> \<not> EXPECTED_TIME_SERIES \<subseteq> set (columns ex_two_numeric)
   \<and> \<not> (numeric_columns ex_two_numeric \<noteq> [] \<and> label_columns ex_two_numeric \<noteq> [])
   \<and> visualize_df ex_two_numeric = PxLine [''A'', ''B''] ''Line plot (numeric columns)''
   \<and> distinct (columns ex_all_text)
   \<and> \<not> EXPECTED_TIME_SERIES \<subseteq> set (columns ex_all_text)
   \<and> \<not> (numeric_columns ex_all_text \<noteq> [] \<and> label_columns ex_all_text \<noteq> [])
   \<and> visualize_df ex_all_text = Message (StInfo ''No numeric columns to plot.'')"
  using choice_generic_lines_or_no_chart [of ex_two_numeric] choice_generic_lines_or_no_chart [of ex_all_text]
  by (simp add: ex_two_numeric_def ex_all_text_def columns_def numeric_columns_def
      label_columns_def EXPECTED_TIME_SERIES_def)

lemma plot_exception_uncaught:
  assumes "read_any fp = Inr df" and "visualize_df df = call" and "px df call = Some e"
    and "\<forall>m. call \<noteq> Message m"
  shows "visualize_file read_any px fp = ([], Some call, Raised e)"
  using assms by (cases call) (simp_all add: visualize_file_def)

lemma read_exception_caught:
  "read_any fp = Inl e \<Longrightarrow>
   visualize_file read_any px fp = ([StError (''Failed to read '' @ fp @ '': '' @ e)], None, Completed)"
  by (simp add: visualize_file_def)

text \<open>
  Claim C7. A table with an integer column \<open>I\<close> and a boolean column \<open>B\<close>, both numeric for
  pandas and no text column, matches neither the fixed tier nor the bar tier; the choice is
  the line chart over \<open>I\<close> and \<open>B\<close>. plotly rejects that call, the two columns being of
  different type, and its ValueError leaves the loop uncaught, whereas an exception of the
  loader is caught and shown. So the heuristic does not always end with one of its planned
  outcomes.
\<close>

theorem mixed_numeric_kinds_raise:
  "distinct (columns ex_int_bool)
   \<and> \<not> EXPECTED_TIME_SERIES \<subseteq> set (columns ex_int_bool)
   \<and> numeric_columns ex_int_bool = [''I'', ''B''] \<and> label_columns ex_int_bool = []
   \<and> visualize_df ex_int_bool = PxLine [''I'', ''B''] ''Line plot (numeric columns)''
   \<and> plotly_express kinds_int_bool ex_int_bool (PxLine [''I'', ''B''] ''Line plot (numeric columns)'')
       = Some (ValueError ''Plotly Express cannot process wide-form data with columns of different type.'')
   \<and> visualize_file read_int_bool (plotly_express kinds_int_bool) ''s3://bucket/t.csv''
       = ([], Some (PxLine [''I'', ''B''] ''Line plot (numeric columns)''),
          Raised (ValueError ''Plotly Express cannot process wide-form data with columns of different type.''))
   \<and> visualize_file read_fails (plotly_express kinds_int_bool) ''s3://bucket/t.csv''
       = ([StError ''Failed to read s3://bucket/t.csv: No columns to parse from file''], None, Completed)"
proof -
  have d: "distinct (columns ex_int_bool)"
    and e: "\<not> EXPECTED_TIME_SERIES \<subseteq> set (columns ex_int_bool)"
    and n: "numeric_columns ex_int_bool = [''I'', ''B'']"
    and l: "label_columns ex_int_bool = []"
    by (simp_all add: ex_int_bool_def columns_def EXPECTED_TIME_SERIES_def numeric_columns_def
        label_columns_def)
  have v: "visualize_df ex_int_bool = PxLine [''I'', ''B''] ''Line plot (numeric columns)''"
    using e by (simp add: visualize_df_tiers [OF d] n l)
  have p: "plotly_express kinds_int_bool ex_int_bool (PxLine [''I'', ''B''] ''Line plot (numeric columns)'')
       = Some (ValueError ''Plotly Express cannot process wide-form data with columns of different type.'')"
    by (simp add: plotly_express_def px_wide_check_def px_type_def kinds_int_bool_def)
  have r: "visualize_file read_int_bool (plotly_express kinds_int_bool) ''s3://bucket/t.csv''
       = ([], Some (PxLine [''I'', ''B''] ''Line plot (numeric columns)''),
          Raised (ValueError ''Plotly Express cannot process wide-form data with columns of different type.''))"
    by (rule plot_exception_uncaught [where df = ex_int_bool])
      (simp_all add: read_int_bool_def v p)
  have c: "visualize_file read_fails (plotly_express kinds_int_bool) ''s3://bucket/t.csv''
       = ([StError ''Failed to read s3://bucket/t.csv: No columns to parse from file''], None, Completed)"
    using read_exception_caught [where read_any = read_fails and fp = "''s3://bucket/t.csv''"
        and e = "''No columns to parse from file''"]
    by (simp add: read_fails_def)
  show ?thesis by (intro conjI d e n l v p r c)
qed

lemma validate_bar_cases:
  "validate_and_plot_bar_interactive d label_col stat_col title =
     (if stat_col \<in> set (columns d) \<and> label_col \<in> set (columns d)
         \<and> is_numeric_dtype (df_get d stat_col)
      then PxBar label_col stat_col title
      else if stat_col \<in> set (columns d) \<and> label_col \<in> set (columns d)
      then Message (StWarning (''The selected statistic column '' @ [CHR 0x27] @ stat_col @ [CHR 0x27]
                            @ '' is not numeric.''))
      else Message (StWarning ''Selected columns not found in the data.''))"
  by (simp add: validate_and_plot_bar_interactive_def plot_bar_interactive_def)

text \<open>
  Claim C2. For every loaded table (its column labels are distinct) whose labels do not
  include all of Frame Number, Procrustes Similarity and Joint Angle Distance: if \<open>v\<close> is the
  first numeric column and \<open>l\<close> the first text column with at most max(50, 0.8 * n)
  distinct values, n the number of rows, then the choice is the bar chart with label column
  \<open>l\<close> and value column \<open>v\<close>. The check made before drawing lets a bar chart through only when
  both columns exist and the value column is numeric, and otherwise shows a warning and
  draws nothing; it has no other result.
\<close>

theorem inferred_bar_chart:
  assumes "distinct (columns df)"
    and "\<not> EXPECTED_TIME_SERIES \<subseteq> set (columns df)"
    and "find (\<lambda>e. col_dtype (snd e) = NumericDtype) (df_columns df) = Some (v, vcol)"
    and "find (\<lambda>e. col_dtype (snd e) = ObjectDtype
                \<and> real (col_nunique (snd e)) \<le> max 50 (0.8 * real (df_len df))) (df_columns df)
         = Some (l, lcol)"
  shows "visualize_df df = PxBar l v (''Bar: '' @ l @ '' vs '' @ v)
       \<and> (\<forall>d label_col stat_col title.
            (stat_col \<in> set (columns d) \<and> is_numeric_dtype (df_get d stat_col)
               \<and> label_col \<in> set (columns d) \<longrightarrow>
             validate_and_plot_bar_interactive d label_col stat_col title = PxBar label_col stat_col title)
          \<and> (\<not> (stat_col \<in> set (columns d) \<and> is_numeric_dtype (df_get d stat_col)) \<longrightarrow>
             (\<exists>w. validate_and_plot_bar_interactive d label_col stat_col title = Message (StWarning w))))"
proof (intro conjI allI)
  have n: "numeric_columns df \<noteq> [] \<and> hd (numeric_columns df) = v"
    using find_hd_filter [OF assms(3)]
    by (auto simp add: numeric_columns_def hd_map)
  have c: "label_columns df \<noteq> [] \<and> hd (label_columns df) = l"
    using find_hd_filter [OF assms(4)]
    by (auto simp add: label_columns_def hd_map)
  show "visualize_df df = PxBar l v (''Bar: '' @ l @ '' vs '' @ v)"
    using assms(2) n c by (simp add: visualize_df_tiers [OF assms(1)] bar_title_def)
next
  fix d label_col stat_col title
  show "stat_col \<in> set (columns d) \<and> is_numeric_dtype (df_get d stat_col)
               \<and> label_col \<in> set (columns d) \<longrightarrow>
             validate_and_plot_bar_interactive d label_col stat_col title = PxBar label_col stat_col title"
    by (simp add: validate_bar_cases)
  show "\<not> (stat_col \<in> set (columns d) \<and> is_numeric_dtype (df_get d stat_col)) \<longrightarrow>
             (\<exists>w. validate_and_plot_bar_interactive d label_col stat_col title = Message (StWarning w))"
    by (simp add: validate_bar_cases)
qed

theorem inferred_bar_chart_witness:
  "distinct (columns ex_label_value)
   \<and> \<not> EXPECTED_TIME_SERIES \<subseteq> set (columns ex_label_value)
   \<and> find (\<lambda>e. col_dtype (snd e) = NumericDtype) (df_columns ex_label_value)
       = Some (''Value'', \<lparr>col_dtype = NumericDtype, col_nunique = 10\<rparr>)
   \<and> find (\<lambda>e. col_dtype (snd e) = ObjectDtype
                \<and> real (col_nunique (snd e)) \<le> max 50 (0.8 * real (df_len ex_label_value)))
          (df_columns ex_label_value)
       = Some (''Label'', \<lparr>col_dtype = ObjectDtype, col_nunique = 3\<rparr>)
   \<and> visualize_df ex_label_value = PxBar ''Label'' ''Value'' ''Bar: Label vs Value''
   \<and> validate_and_plot_bar_interactive ex_label_value ''Label'' ''Value'' ''t'' = PxBar ''Label'' ''Value'' ''t''
   \<and> (\<exists>w. validate_and_plot_bar_interactive ex_label_value ''Value'' ''Label'' ''t'' = Message (StWarning w))"
proof -
  have a: "distinct (columns ex_label_value)"
    and b: "\<not> EXPECTED_TIME_SERIES \<subseteq> set (columns ex_label_value)"
    and c: "find (\<lambda>e. col_dtype (snd e) = NumericDtype) (df_columns ex_label_value)
       = Some (''Value'', \<lparr>col_dtype = NumericDtype, col_nunique = 10\<rparr>)"
    and d: "find (\<lambda>e. col_dtype (snd e) = ObjectDtype
                \<and> real (col_nunique (snd e)) \<le> max 50 (0.8 * real (df_len ex_label_value)))
          (df_columns ex_label_value)
       = Some (''Label'', \<lparr>col_dtype = ObjectDtype, col_nunique = 3\<rparr>)"
    and e: "''Value'' \<in> set (columns ex_label_value) \<and> is_numeric_dtype (df_get ex_label_value ''Value'')
               \<and> ''Label'' \<in> set (columns ex_label_value)"
    and f: "\<not> (''Label'' \<in> set (columns ex_label_value) \<and> is_numeric_dtype (df_get ex_label_value ''Label''))"
    by (simp_all add: ex_label_value_def columns_def EXPECTED_TIME_SERIES_def df_get_def is_numeric_dtype_def)
  from inferred_bar_chart [OF a b c d] a b c d e f show ?thesis by simp
qed

section \<open>Properties of the listing\<close>

text \<open>
  The example of claim C1 as worded, with entry names relative to the bucket: the names do
  not start with the prefix body, each holds a slash, and all three collapse into the one
  folder \<open>bucket/a/a/\<close>; no file is listed.
\<close>

theorem relative_keys_counterexample:
  "list_cloud ls_relative_keys anon_s3 ''s3'' ''s3://bucket/a/'' = ([], [''s3://bucket/a/a/''], [])
   \<and> fst (snd (list_cloud ls_relative_keys anon_s3 ''s3'' ''s3://bucket/a/'')) \<noteq> [''s3://bucket/a/c/'']
   \<and> snd (snd (list_cloud ls_relative_keys anon_s3 ''s3'' ''s3://bucket/a/'')) \<noteq> [''s3://bucket/a/b.csv'']"
  by (simp add: list_eval ls_relative_keys_def)

lemma lower_append: "lower (a @ b) = lower a @ lower b"
  by (simp add: lower_def)

lemma endswith_append:
  "length p \<le> length b \<Longrightarrow> endswith (a @ b) p = endswith b p"
  by (simp add: endswith_def)

lemma length_lower: "length (lower s) = length s"
  by (simp add: lower_def)

lemma is_allowed_file_url:
  "4 < length name \<Longrightarrow> is_allowed_file (rebuild_url scheme name) = is_allowed_file name"
proof -
  assume l: "4 < length name"
  have "\<And>ext. ext \<in> set ALLOWED_EXTS \<Longrightarrow> length ext \<le> length (lower name)"
    using l by (auto simp add: ALLOWED_EXTS_def length_lower)
  then have "\<And>ext. ext \<in> set ALLOWED_EXTS \<Longrightarrow>
      endswith (lower (scheme @ ''://'') @ lower name) ext = endswith (lower name) ext"
    by (rule endswith_append)
  then show ?thesis
    by (simp add: is_allowed_file_def rebuild_url_def lower_append list_ex_iff Let_def
        del: append.simps)
qed

lemma list_step_at_name:
  assumes "it_type it \<noteq> Some ''directory''" and "item_name it = name"
  shows "list_step scheme without acc it =
     (let rel = (if startswith name without then drop (length without) name else name)
      in if endswith name ''/'' then
           (set_add (rebuild_url scheme (rstrip_chars ''/'' name @ ''/'')) (fst acc), snd acc)
         else if CHR ''/'' \<in> set rel then
           (set_add (rebuild_url scheme (rstrip_chars ''/'' without @ ''/''
               @ strip_chars ''/'' (takeWhile (\<lambda>c. c \<noteq> CHR ''/'') rel) @ ''/'')) (fst acc), snd acc)
         else if is_allowed_file (rebuild_url scheme name) then (fst acc, snd acc @ [rebuild_url scheme name])
         else (fst acc, snd acc))"
  using assms by (simp add: list_step_def Let_def)

text \<open>
  Claim C1, amended. When the listing under the prefix body \<open>bucket/a/\<close> returns the full keys
  \<open>bucket/a/b.csv\<close>, \<open>bucket/a/c/d.csv\<close> and \<open>bucket/a/e.txt\<close>, none marked as a directory,
  then for every scheme the directories are exactly \<open>scheme://bucket/a/c/\<close> and the files
  exactly \<open>scheme://bucket/a/b.csv\<close>.
\<close>

theorem full_keys_listing:
  assumes "snd (strip_scheme prefix) = ''bucket/a/''"
    and "ls fs ''bucket/a/'' = Inr items"
    and "map item_name items = [''bucket/a/b.csv'', ''bucket/a/c/d.csv'', ''bucket/a/e.txt'']"
    and "\<forall>it \<in> set items. it_type it \<noteq> Some ''directory''"
  shows "list_cloud ls fs scheme prefix =
     ([], [rebuild_url scheme ''bucket/a/c/''], [rebuild_url scheme ''bucket/a/b.csv''])"
proof -
  from assms(3) obtain i1 i2 i3 where items: "items = [i1, i2, i3]"
    and n1: "item_name i1 = ''bucket/a/b.csv''"
    and n2: "item_name i2 = ''bucket/a/c/d.csv''"
    and n3: "item_name i3 = ''bucket/a/e.txt''"
    by (auto simp add: map_eq_Cons_conv)
  from assms(4) items have t: "it_type i1 \<noteq> Some ''directory''" "it_type i2 \<noteq> Some ''directory''"
    "it_type i3 \<noteq> Some ''directory''" by simp_all
  have a1: "is_allowed_file (rebuild_url scheme ''bucket/a/b.csv'')"
    by (simp add: is_allowed_file_url)
      (simp add: is_allowed_file_def ALLOWED_EXTS_def lower_def lower_char_def endswith_def)
  have a3: "\<not> is_allowed_file (rebuild_url scheme ''bucket/a/e.txt'')"
    by (simp add: is_allowed_file_url)
      (simp add: is_allowed_file_def ALLOWED_EXTS_def lower_def lower_char_def endswith_def)
  have s1: "list_step scheme ''bucket/a/'' ([], []) i1 = ([], [rebuild_url scheme ''bucket/a/b.csv''])"
    using a1 by (simp add: list_step_at_name [OF t(1) n1] startswith_def endswith_def)
  have s2: "list_step scheme ''bucket/a/'' ([], [rebuild_url scheme ''bucket/a/b.csv'']) i2
      = ([rebuild_url scheme ''bucket/a/c/''], [rebuild_url scheme ''bucket/a/b.csv''])"
    by (simp add: list_step_at_name [OF t(2) n2] startswith_def endswith_def set_add_def
        rstrip_chars_def strip_chars_def lstrip_chars_def)
  have s3: "list_step scheme ''bucket/a/''
        ([rebuild_url scheme ''bucket/a/c/''], [rebuild_url scheme ''bucket/a/b.csv'']) i3
      = ([rebuild_url scheme ''bucket/a/c/''], [rebuild_url scheme ''bucket/a/b.csv''])"
    using a3 by (simp add: list_step_at_name [OF t(3) n3] startswith_def endswith_def)
  show ?thesis
    by (simp add: list_cloud_def assms(1) assms(2) items s1 s2 s3)
qed

theorem full_keys_listing_witness:
  "snd (strip_scheme ''gs://bucket/a/'') = ''bucket/a/''
   \<and> ls_full_keys anon_s3 ''bucket/a/''
       = Inr (map mk_item [''bucket/a/b.csv'', ''bucket/a/c/d.csv'', ''bucket/a/e.txt''])
   \<and> list_cloud ls_full_keys anon_s3 ''gs'' ''gs://bucket/a/''
       = ([], [''gs://bucket/a/c/''], [''gs://bucket/a/b.csv''])"
proof -
  have a: "snd (strip_scheme ''gs://bucket/a/'') = ''bucket/a/''"
    by (simp add: strip_scheme_def startswith_def)
  have b: "ls_full_keys anon_s3 ''bucket/a/''
       = Inr (map mk_item [''bucket/a/b.csv'', ''bucket/a/c/d.csv'', ''bucket/a/e.txt''])"
    by (simp add: ls_full_keys_def)
  have c: "map item_name (map mk_item [''bucket/a/b.csv'', ''bucket/a/c/d.csv'', ''bucket/a/e.txt''])
       = [''bucket/a/b.csv'', ''bucket/a/c/d.csv'', ''bucket/a/e.txt'']"
    by (simp add: item_name_def mk_item_def)
  have d: "\<forall>it \<in> set (map mk_item [''bucket/a/b.csv'', ''bucket/a/c/d.csv'', ''bucket/a/e.txt'']).
       it_type it \<noteq> Some ''directory''"
    by (simp add: mk_item_def)
  from full_keys_listing [where ls = ls_full_keys and fs = anon_s3 and scheme = "''gs''", OF a b c d] a b
  show ?thesis
    by (simp add: rebuild_url_def)
qed

lemma list_cloud_failure:
  "ls fs (snd (strip_scheme prefix)) = Inl cause \<Longrightarrow>
   list_cloud ls fs scheme prefix = ([StError (failed_to_list prefix cause)], [], [])"
  by (simp add: list_cloud_def)

lemma listing_failure_browse:
  assumes "ls fs (snd (strip_scheme prefix)) = Inl cause"
  shows "list_cloud ls fs scheme prefix = ([StError (failed_to_list prefix cause)], [], [])
       \<and> (connected_state st \<and> ss_fs st = Some fs \<and> current_prefix st = prefix \<and> \<not> up_button inp \<longrightarrow>
            v_state (browse ls inp st) = st
          \<and> ss_prefix (v_state (browse ls inp st)) = Some prefix
          \<and> v_dirs (browse ls inp st) = [] \<and> v_files (browse ls inp st) = []
          \<and> v_outcome (browse ls inp st) = Completed
          \<and> StError (failed_to_list prefix cause) \<in> set (v_messages (browse ls inp st)))"
proof (intro conjI impI)
  show l: "list_cloud ls fs scheme prefix = ([StError (failed_to_list prefix cause)], [], [])"
    using assms by (rule list_cloud_failure)
next
  assume h: "connected_state st \<and> ss_fs st = Some fs \<and> current_prefix st = prefix \<and> \<not> up_button inp"
  have l: "list_cloud ls fs (current_scheme st) prefix = ([StError (failed_to_list prefix cause)], [], [])"
    using assms by (rule list_cloud_failure)
  from h have p: "ss_prefix st = Some prefix"
    by (auto simp add: connected_state_def current_prefix_def split: option.splits)
  have b: "browse ls inp st =
      \<lparr>v_state = st,
       v_messages = [StError (failed_to_list prefix cause), StWrite ''No subfolders.'',
                     StWrite ''No CSV/Excel files in this folder.''],
       v_dirs = [], v_files = [], v_selected_files = [], v_outcome = Completed\<rparr>"
    using h l by (auto simp add: browse_def connected_state_def select_files_def Let_def)
  show "v_state (browse ls inp st) = st" by (simp add: b)
  show "ss_prefix (v_state (browse ls inp st)) = Some prefix" by (simp add: b p)
  show "v_dirs (browse ls inp st) = []" by (simp add: b)
  show "v_files (browse ls inp st) = []" by (simp add: b)
  show "v_outcome (browse ls inp st) = Completed" by (simp add: b)
  show "StError (failed_to_list prefix cause) \<in> set (v_messages (browse ls inp st))" by (simp add: b)
qed

text \<open>
  Claim C3. For every prefix, when the listing call raises, \<open>list_cloud\<close> raises nothing: it
  shows one error, whose text is "Failed to list '", the attempted prefix, "': " and the text
  of the cause, and returns no directory and no file. A run of the browser in which the
  listing of the current prefix fails (no button to go up pressed, as in a refresh) ends
  normally, shows that error, and leaves the session state, and so the current prefix,
  unchanged.
\<close>

theorem listing_failure_contained:
  assumes "ls fs (snd (strip_scheme prefix)) = Inl cause"
  shows "list_cloud ls fs scheme prefix =
           ([StError (''Failed to list '' @ [CHR 0x27] @ prefix @ [CHR 0x27] @ '': '' @ cause)], [], [])
       \<and> (connected_state st \<and> ss_fs st = Some fs \<and> current_prefix st = prefix \<and> \<not> up_button inp \<longrightarrow>
            v_state (browse ls inp st) = st
          \<and> ss_prefix (v_state (browse ls inp st)) = Some prefix
          \<and> v_dirs (browse ls inp st) = [] \<and> v_files (browse ls inp st) = []
          \<and> v_outcome (browse ls inp st) = Completed
          \<and> StError (''Failed to list '' @ [CHR 0x27] @ prefix @ [CHR 0x27] @ '': '' @ cause)
               \<in> set (v_messages (browse ls inp st)))"
  using listing_failure_browse [where ls = ls and fs = fs and prefix = prefix and cause = cause
      and scheme = scheme and st = st and inp = inp, OF assms]
  unfolding failed_to_list_def by assumption

theorem listing_failure_contained_witness:
  "ls_denied anon_s3 (snd (strip_scheme ''s3://bucket/x/'')) = Inl ''Access Denied''
   \<and> connected_state ex_connected \<and> ss_fs ex_connected = Some anon_s3
   \<and> current_prefix ex_connected = ''s3://bucket/x/'' \<and> \<not> up_button ex_refresh
   \<and> list_cloud ls_denied anon_s3 ''s3'' ''s3://bucket/x/''
       = ([StError (''Failed to list '' @ [CHR 0x27] @ ''s3://bucket/x/'' @ [CHR 0x27]
             @ '': Access Denied'')], [], [])
   \<and> v_state (browse ls_denied ex_refresh ex_connected) = ex_connected
   \<and> v_dirs (browse ls_denied ex_refresh ex_connected) = []
   \<and> v_files (browse ls_denied ex_refresh ex_connected) = []
   \<and> StError (''Failed to list '' @ [CHR 0x27] @ ''s3://bucket/x/'' @ [CHR 0x27]
             @ '': Access Denied'') \<in> set (v_messages (browse ls_denied ex_refresh ex_connected))"
proof -
  have a: "ls_denied anon_s3 (snd (strip_scheme ''s3://bucket/x/'')) = Inl ''Access Denied''"
    by (simp add: ls_denied_def)
  have b: "connected_state ex_connected \<and> ss_fs ex_connected = Some anon_s3
     \<and> current_prefix ex_connected = ''s3://bucket/x/'' \<and> \<not> up_button ex_refresh"
    by (simp add: connected_state_def ex_connected_def current_prefix_def current_scheme_def ex_refresh_def)
  from listing_failure_contained [where ls = ls_denied and fs = anon_s3 and scheme = "''s3''"
      and st = ex_connected and inp = ex_refresh, OF a] a b
  show ?thesis by simp
qed

lemma distinct_set_add: "distinct xs \<Longrightarrow> distinct (set_add x xs)"
  by (simp add: set_add_def)

lemma list_step_dirs_distinct:
  "distinct (fst acc) \<Longrightarrow> distinct (fst (list_step scheme without acc it))"
  by (simp add: list_step_def Let_def distinct_set_add)

lemma foldl_list_step_dirs_distinct:
  "distinct (fst acc) \<Longrightarrow> distinct (fst (foldl (list_step scheme without) acc items))"
  by (induction items arbitrary: acc) (simp_all add: list_step_dirs_distinct)

lemma list_step_files:
  "snd (list_step scheme without acc it) = snd acc
   \<or> snd (list_step scheme without acc it) = snd acc @ [rebuild_url scheme (item_name it)]"
  by (simp add: list_step_def Let_def)

lemma rebuild_url_inj: "(rebuild_url scheme a = rebuild_url scheme b) = (a = b)"
  by (simp add: rebuild_url_def)

lemma foldl_list_step_files_distinct:
  assumes "distinct (snd acc)" and "distinct (map item_name items)"
    and "\<forall>it \<in> set items. rebuild_url scheme (item_name it) \<notin> set (snd acc)"
  shows "distinct (snd (foldl (list_step scheme without) acc items))"
  using assms
proof (induction items arbitrary: acc)
  case Nil
  then show ?case by simp
next
  case (Cons it items)
  let ?acc = "list_step scheme without acc it"
  from list_step_files [of scheme without acc it]
  have sub: "set (snd ?acc) \<subseteq> insert (rebuild_url scheme (item_name it)) (set (snd acc))"
    by auto
  have d: "distinct (snd ?acc)"
    using list_step_files [of scheme without acc it] Cons.prems(1) Cons.prems(3) by auto
  have n: "\<forall>it' \<in> set items. rebuild_url scheme (item_name it') \<notin> set (snd ?acc)"
  proof
    fix it' assume m: "it' \<in> set items"
    with Cons.prems(2) have "item_name it' \<noteq> item_name it" by (metis distinct.simps(2) image_eqI list.simps(9) set_map)
    then have "rebuild_url scheme (item_name it') \<noteq> rebuild_url scheme (item_name it)"
      by (simp add: rebuild_url_inj)
    moreover from m Cons.prems(3) have "rebuild_url scheme (item_name it') \<notin> set (snd acc)" by simp
    ultimately show "rebuild_url scheme (item_name it') \<notin> set (snd ?acc)" using sub by auto
  qed
  from Cons.prems(2) have "distinct (map item_name items)" by simp
  from Cons.IH [OF d this n] show ?case by simp
qed

text \<open>
  Against the wording of claim C5: a listing that returns the same file entry twice gives the
  file path twice.
\<close>

theorem repeated_file_counterexample:
  "list_cloud ls_repeated anon_s3 ''s3'' ''s3://bucket/''
     = ([], [], [''s3://bucket/x.csv'', ''s3://bucket/x.csv''])
   \<and> \<not> distinct (snd (snd (list_cloud ls_repeated anon_s3 ''s3'' ''s3://bucket/'')))"
  by (simp add: list_eval ls_repeated_def)

lemma list_step_entries:
  "list_step scheme without acc it =
     (if dir_entry without it then (set_add (dir_url scheme without it) (fst acc), snd acc)
      else if file_entry scheme without it then (fst acc, snd acc @ [rebuild_url scheme (item_name it)])
      else acc)"
  by (simp add: list_step_def dir_entry_def file_entry_def dir_url_def marked_dir_def rel_name_def
      Let_def)

lemma file_not_dir: "file_entry scheme without it \<Longrightarrow> \<not> dir_entry without it"
  by (simp add: file_entry_def dir_entry_def)

lemma set_set_add: "set (set_add x xs) = insert x (set xs)"
  by (auto simp add: set_add_def)

lemma foldl_list_step_dirs:
  "set (fst (foldl (list_step scheme without) acc items))
     = set (fst acc) \<union> dir_url scheme without ` {it \<in> set items. dir_entry without it}"
proof (induction items arbitrary: acc)
  case Nil
  then show ?case by simp
next
  case (Cons it items)
  show ?case
    by (simp only: foldl_Cons Cons.IH) (auto simp add: list_step_entries set_set_add)
qed

lemma foldl_list_step_files:
  "snd (foldl (list_step scheme without) acc items)
     = snd acc @ map (\<lambda>it. rebuild_url scheme (item_name it)) (filter (file_entry scheme without) items)"
proof (induction items arbitrary: acc)
  case Nil
  then show ?case by simp
next
  case (Cons it items)
  show ?case
    using file_not_dir [of scheme without it]
    by (simp only: foldl_Cons Cons.IH) (auto simp add: list_step_entries)
qed

lemma lower_alphabet: "lower ''ABCDEFGHIJKLMNOPQRSTUVWXYZ'' = ''abcdefghijklmnopqrstuvwxyz''"
  by code_simp

lemma mixed_case_listing:
  "list_cloud ls_mixed_case anon_s3 ''s3'' ''s3://bucket/''
     = ([], [''s3://bucket/m/'', ''s3://bucket/Z/''], [''s3://bucket/a.csv'', ''s3://bucket/B.csv''])"
  by code_simp


lemma ls_repeated_files:
  "mset (map (\<lambda>it. rebuild_url ''s3'' (item_name it))
      (filter (file_entry ''s3'' ''bucket/'') (map mk_item [''bucket/x.csv'', ''bucket/x.csv''])))
   = {#''s3://bucket/x.csv'', ''s3://bucket/x.csv''#}"
  by code_simp

text \<open>
  Claim C5, amended. For every listing, the directories returned hold no path twice and are
  exactly the directories that the listed entries stand for; the directories and the files
  are each sorted by their lower-cased path, the key that maps the letters A to Z to a to z.
  The files are the URLs of the listed file entries, each as often as it is listed, so a
  file entry that the listing repeats is kept as often as it is listed; the files hold no
  path twice whenever the names of the listed entries are distinct. When the listing call
  fails there are no directories and no files.
\<close>

theorem listing_sorted_dirs_distinct:
  "distinct (fst (snd (list_cloud ls fs scheme prefix)))
   \<and> sorted (map lower (fst (snd (list_cloud ls fs scheme prefix))))
   \<and> sorted (map lower (snd (snd (list_cloud ls fs scheme prefix))))
   \<and> lower ''ABCDEFGHIJKLMNOPQRSTUVWXYZ'' = ''abcdefghijklmnopqrstuvwxyz''
   \<and> (\<forall>items. ls fs (snd (strip_scheme prefix)) = Inr items \<longrightarrow>
         set (fst (snd (list_cloud ls fs scheme prefix)))
           = dir_url scheme (snd (strip_scheme prefix))
               ` {it \<in> set items. dir_entry (snd (strip_scheme prefix)) it}
       \<and> mset (snd (snd (list_cloud ls fs scheme prefix)))
           = mset (map (\<lambda>it. rebuild_url scheme (item_name it))
                (filter (file_entry scheme (snd (strip_scheme prefix))) items))
       \<and> (distinct (map item_name items) \<longrightarrow> distinct (snd (snd (list_cloud ls fs scheme prefix)))))
   \<and> (\<forall>e. ls fs (snd (strip_scheme prefix)) = Inl e \<longrightarrow>
         fst (snd (list_cloud ls fs scheme prefix)) = []
       \<and> snd (snd (list_cloud ls fs scheme prefix)) = [])"
proof (cases "ls fs (snd (strip_scheme prefix))")
  case (Inl e)
  then show ?thesis by (simp add: list_cloud_def lower_alphabet)
next
  case (Inr items)
  let ?w = "snd (strip_scheme prefix)"
  let ?acc = "foldl (list_step scheme ?w) ([], []) items"
  have lc: "list_cloud ls fs scheme prefix = ([], sort_key lower (fst ?acc), sort_key lower (snd ?acc))"
    using Inr by (simp add: list_cloud_def Let_def)
  have d: "distinct (fst ?acc)"
    by (rule foldl_list_step_dirs_distinct) simp
  have f: "distinct (map item_name items) \<Longrightarrow> distinct (snd ?acc)"
    by (rule foldl_list_step_files_distinct) simp_all
  have sd: "set (fst ?acc) = dir_url scheme ?w ` {it \<in> set items. dir_entry ?w it}"
    by (simp add: foldl_list_step_dirs)
  have sf: "snd ?acc = map (\<lambda>it. rebuild_url scheme (item_name it)) (filter (file_entry scheme ?w) items)"
    by (simp add: foldl_list_step_files)
  have m: "mset (sort_key lower (snd ?acc))
      = mset (map (\<lambda>it. rebuild_url scheme (item_name it)) (filter (file_entry scheme ?w) items))"
    by (simp only: mset_sort sf)
  have s: "set (sort_key lower (fst ?acc)) = dir_url scheme ?w ` {it \<in> set items. dir_entry ?w it}"
    by (simp only: set_sort sd)
  show ?thesis
    unfolding lc fst_conv snd_conv using d f m s Inr
    by (simp add: lower_alphabet)
qed

theorem listing_sorted_dirs_distinct_witness:
  "ls_mixed_case anon_s3 (snd (strip_scheme ''s3://bucket/'')) = Inr (map mk_item mixed_case_names)
   \<and> distinct (map item_name (map mk_item mixed_case_names))
   \<and> list_cloud ls_mixed_case anon_s3 ''s3'' ''s3://bucket/''
       = ([], [''s3://bucket/m/'', ''s3://bucket/Z/''], [''s3://bucket/a.csv'', ''s3://bucket/B.csv''])
   \<and> distinct (fst (snd (list_cloud ls_mixed_case anon_s3 ''s3'' ''s3://bucket/'')))
   \<and> sorted (map lower (fst (snd (list_cloud ls_mixed_case anon_s3 ''s3'' ''s3://bucket/''))))
   \<and> sorted (map lower (snd (snd (list_cloud ls_mixed_case anon_s3 ''s3'' ''s3://bucket/''))))
   \<and> distinct (snd (snd (list_cloud ls_mixed_case anon_s3 ''s3'' ''s3://bucket/'')))
   \<and> ls_repeated anon_s3 (snd (strip_scheme ''s3://bucket/''))
       = Inr (map mk_item [''bucket/x.csv'', ''bucket/x.csv''])
   \<and> mset (snd (snd (list_cloud ls_repeated anon_s3 ''s3'' ''s3://bucket/'')))
       = {#''s3://bucket/x.csv'', ''s3://bucket/x.csv''#}"
proof -
  have w: "snd (strip_scheme ''s3://bucket/'') = ''bucket/''"
    by (simp add: strip_scheme_def startswith_def)
  have a: "ls_mixed_case anon_s3 (snd (strip_scheme ''s3://bucket/'')) = Inr (map mk_item mixed_case_names)"
    by (simp add: w ls_mixed_case_def)
  have b: "distinct (map item_name (map mk_item mixed_case_names))"
    by (simp add: item_name_def mk_item_def mixed_case_names_def)
  have r: "ls_repeated anon_s3 (snd (strip_scheme ''s3://bucket/''))
       = Inr (map mk_item [''bucket/x.csv'', ''bucket/x.csv''])"
    by (simp add: w ls_repeated_def)
  note t = listing_sorted_dirs_distinct [where ls = ls_mixed_case and fs = anon_s3
      and scheme = "''s3''" and prefix = "''s3://bucket/''"]
  note t5 = t [THEN conjunct2, THEN conjunct2, THEN conjunct2, THEN conjunct2, THEN conjunct1,
      rule_format, OF a]
  note u = listing_sorted_dirs_distinct [where ls = ls_repeated and fs = anon_s3
      and scheme = "''s3''" and prefix = "''s3://bucket/''"]
  note u5 = u [THEN conjunct2, THEN conjunct2, THEN conjunct2, THEN conjunct2, THEN conjunct1,
      rule_format, OF r]
  have dist: "distinct (snd (snd (list_cloud ls_mixed_case anon_s3 ''s3'' ''s3://bucket/'')))"
    using t5 [THEN conjunct2, THEN conjunct2] b by (rule mp)
  have rep: "mset (snd (snd (list_cloud ls_repeated anon_s3 ''s3'' ''s3://bucket/'')))
       = {#''s3://bucket/x.csv'', ''s3://bucket/x.csv''#}"
    using u5 [THEN conjunct2, THEN conjunct1] by (simp only: w ls_repeated_files)
  show ?thesis
    by (intro conjI a b mixed_case_listing t [THEN conjunct1] t [THEN conjunct2, THEN conjunct1]
        t [THEN conjunct2, THEN conjunct2, THEN conjunct1] dist r rep)
qed

section \<open>Connecting\<close>

text \<open>
  Against the wording of claim C4: an s3 connect that is not anonymous, with no keys and an
  empty environment, completes and leaves the session connected; and a connect with an
  unrecognised scheme shows a hint, not an error.
\<close>

theorem s3_no_credentials_counterexample:
  "connect_handler empty_environ w_s3_no_keys initial_state =
     (\<lparr>ss_default_path = Some ''s3://bucket/data'', ss_prefix = Some ''s3://bucket/data/'',
       ss_fs = Some (S3FileSystem []), ss_scheme = Some ''s3'',
       ss_storage_options = Some [(''anon'', KBool False)]\<rparr>, [], Completed)
   \<and> connected_state (fst (connect_handler empty_environ w_s3_no_keys initial_state))
   \<and> connect_handler empty_environ w_ftp initial_state =
     (initial_state, [StInfo ''Enter a path starting with gs:// (Google Cloud) or s3:// (AWS).''],
      Completed)"
  by (simp add: connect_eval w_s3_no_keys_def w_ftp_def empty_environ_def)

lemma clean_prefix_nonempty: "p \<noteq> [] \<Longrightarrow> clean_prefix p \<noteq> []"
  by (simp add: clean_prefix_def)

lemma detect_scheme_nonempty: "detect_scheme u \<noteq> [] \<Longrightarrow> u \<noteq> []"
  by (auto simp add: detect_scheme_def)

lemma get_fs_s3_total: "\<exists>fs. get_fs ''s3'' anon k s t r g = Inr fs"
  by (cases anon) (simp_all add: get_fs_def Let_def)

text \<open>
  Claim C4, amended. For every connect attempt: when the scheme of the URL is not recognised
  the connect block is skipped, the session state is left as it was and only the hint of
  the sidebar is shown (\<open>get_fs\<close> itself raises the ValueError "Unsupported scheme" for every
  scheme other than s3 and gs, but is not called then); for gs, when access is not anonymous
  and there is neither an uploaded credentials file nor GOOGLE_APPLICATION_CREDENTIALS in
  the environment, the attempt shows an error and halts, and stores no accessor, scheme or
  storage options; for s3 no test of credentials is made, and the attempt always ends with
  an accessor stored and the session connected.
\<close>

theorem connect_errors:
  "(scheme \<noteq> ''s3'' \<and> scheme \<noteq> ''gs'' \<longrightarrow>
      get_fs scheme anon key_id secret token region gcs_token
        = Inl (ValueError ''Unsupported scheme. Use s3:// or gs://''))
   \<and> (detect_scheme (w_bucket_input w) = [] \<longrightarrow>
      connect_handler environ w st
        = (st, [StInfo ''Enter a path starting with gs:// (Google Cloud) or s3:// (AWS).''], Completed))
   \<and> (w_connect w \<and> detect_scheme (w_bucket_input w) = ''gs'' \<and> \<not> w_public w
        \<and> w_creds_file w = None \<and> environ ''GOOGLE_APPLICATION_CREDENTIALS'' = None \<longrightarrow>
      snd (connect_handler environ w st) = ([StError missing_credentials], Stopped)
      \<and> ss_fs (fst (connect_handler environ w st)) = ss_fs st
      \<and> ss_scheme (fst (connect_handler environ w st)) = ss_scheme st
      \<and> ss_storage_options (fst (connect_handler environ w st)) = ss_storage_options st
      \<and> (ss_fs st = None \<longrightarrow> \<not> connected_state (fst (connect_handler environ w st))))
   \<and> (w_connect w \<and> detect_scheme (w_bucket_input w) = ''s3'' \<longrightarrow>
      snd (connect_handler environ w st) = ([], Completed)
      \<and> ss_fs (fst (connect_handler environ w st)) \<noteq> None
      \<and> ss_scheme (fst (connect_handler environ w st)) = Some ''s3''
      \<and> connected_state (fst (connect_handler environ w st)))"
proof (intro conjI impI)
  assume "scheme \<noteq> ''s3'' \<and> scheme \<noteq> ''gs''"
  then show "get_fs scheme anon key_id secret token region gcs_token
        = Inl (ValueError ''Unsupported scheme. Use s3:// or gs://'')"
    by (simp add: get_fs_def)
next
  assume "detect_scheme (w_bucket_input w) = []"
  then show "connect_handler environ w st
        = (st, [StInfo ''Enter a path starting with gs:// (Google Cloud) or s3:// (AWS).''], Completed)"
    by (simp add: connect_handler_def sidebar_def Let_def)
next
  assume h: "w_connect w \<and> detect_scheme (w_bucket_input w) = ''gs'' \<and> \<not> w_public w
        \<and> w_creds_file w = None \<and> environ ''GOOGLE_APPLICATION_CREDENTIALS'' = None"
  then have r: "connect_handler environ w st =
      (st\<lparr>ss_default_path := Some (w_bucket_input w),
          ss_prefix := Some (clean_prefix (w_bucket_input w))\<rparr>,
       [StError missing_credentials], Stopped)"
    by (simp add: connect_handler_def sidebar_def Let_def)
  show "snd (connect_handler environ w st) = ([StError missing_credentials], Stopped)"
    by (simp add: r)
  show "ss_fs (fst (connect_handler environ w st)) = ss_fs st" by (simp add: r)
  show "ss_scheme (fst (connect_handler environ w st)) = ss_scheme st" by (simp add: r)
  show "ss_storage_options (fst (connect_handler environ w st)) = ss_storage_options st"
    by (simp add: r)
  show "\<not> connected_state (fst (connect_handler environ w st))" if "ss_fs st = None"
    using that by (simp add: r connected_state_def)
next
  assume h: "w_connect w \<and> detect_scheme (w_bucket_input w) = ''s3''"
  then have ne: "clean_prefix (w_bucket_input w) \<noteq> []"
    using clean_prefix_nonempty [of "w_bucket_input w"] detect_scheme_nonempty [of "w_bucket_input w"]
    by simp
  obtain fs where g: "get_fs ''s3'' (w_public w)
      (if \<not> w_public w then w_access_key_id w else [])
      (if \<not> w_public w then w_secret_access_key w else [])
      (if \<not> w_public w then w_session_token w else []) (w_region w) None = Inr fs"
    using get_fs_s3_total by blast
  from h g have r: "connect_handler environ w st =
      (st\<lparr>ss_default_path := Some (w_bucket_input w),
          ss_prefix := Some (clean_prefix (w_bucket_input w)),
          ss_fs := Some fs, ss_scheme := Some ''s3'',
          ss_storage_options := Some (build_storage_options ''s3'' (w_public w)
             (if \<not> w_public w then w_access_key_id w else [])
             (if \<not> w_public w then w_secret_access_key w else [])
             (if \<not> w_public w then w_session_token w else []) (w_region w) None)\<rparr>,
       [], Completed)"
    by (simp add: connect_handler_def sidebar_def Let_def)
  show "snd (connect_handler environ w st) = ([], Completed)" by (simp add: r)
  show "ss_fs (fst (connect_handler environ w st)) \<noteq> None" by (simp add: r)
  show "ss_scheme (fst (connect_handler environ w st)) = Some ''s3''" by (simp add: r)
  show "connected_state (fst (connect_handler environ w st))"
    using ne by (simp add: r connected_state_def current_prefix_def current_scheme_def)
qed

theorem connect_errors_witness:
  "''ftp'' \<noteq> ''s3'' \<and> ''ftp'' \<noteq> ''gs''
   \<and> get_fs ''ftp'' True [] [] [] [] None = Inl (ValueError ''Unsupported scheme. Use s3:// or gs://'')
   \<and> detect_scheme (w_bucket_input w_ftp) = []
   \<and> connect_handler empty_environ w_ftp initial_state
       = (initial_state, [StInfo ''Enter a path starting with gs:// (Google Cloud) or s3:// (AWS).''], Completed)
   \<and> w_connect w_gs_no_creds \<and> detect_scheme (w_bucket_input w_gs_no_creds) = ''gs''
   \<and> \<not> w_public w_gs_no_creds \<and> w_creds_file w_gs_no_creds = None
   \<and> empty_environ ''GOOGLE_APPLICATION_CREDENTIALS'' = None
   \<and> ss_fs initial_state = None
   \<and> snd (connect_handler empty_environ w_gs_no_creds initial_state) = ([StError missing_credentials], Stopped)
   \<and> \<not> connected_state (fst (connect_handler empty_environ w_gs_no_creds initial_state))
   \<and> w_connect w_s3_no_keys \<and> detect_scheme (w_bucket_input w_s3_no_keys) = ''s3''
   \<and> snd (connect_handler empty_environ w_s3_no_keys initial_state) = ([], Completed)
   \<and> connected_state (fst (connect_handler empty_environ w_s3_no_keys initial_state))"
proof -
  have a: "''ftp'' \<noteq> ''s3'' \<and> ''ftp'' \<noteq> ''gs''" by simp
  have b: "detect_scheme (w_bucket_input w_ftp) = []"
    by (simp add: w_ftp_def detect_scheme_def startswith_def)
  have c: "w_connect w_gs_no_creds \<and> detect_scheme (w_bucket_input w_gs_no_creds) = ''gs''
      \<and> \<not> w_public w_gs_no_creds \<and> w_creds_file w_gs_no_creds = None
      \<and> empty_environ ''GOOGLE_APPLICATION_CREDENTIALS'' = None"
    by (simp add: w_gs_no_creds_def detect_scheme_def startswith_def empty_environ_def)
  have d: "ss_fs initial_state = None" by (simp add: initial_state_def)
  have e: "w_connect w_s3_no_keys \<and> detect_scheme (w_bucket_input w_s3_no_keys) = ''s3''"
    by (simp add: w_s3_no_keys_def detect_scheme_def startswith_def)
  note t1 = connect_errors [where scheme = "''ftp''" and anon = True and key_id = "[]" and secret = "[]"
      and token = "[]" and region = "[]" and gcs_token = None and w = w_ftp
      and environ = empty_environ and st = initial_state]
  note t2 = connect_errors [where w = w_gs_no_creds and environ = empty_environ and st = initial_state]
  note t3 = connect_errors [where w = w_s3_no_keys and environ = empty_environ and st = initial_state]
  note p1 = t1 [THEN conjunct1, THEN mp, OF a]
  note p2 = t1 [THEN conjunct2, THEN conjunct1, THEN mp, OF b]
  note p3 = t2 [THEN conjunct2, THEN conjunct2, THEN conjunct1, THEN mp, OF c]
  note p4 = t3 [THEN conjunct2, THEN conjunct2, THEN conjunct2, THEN mp, OF e]
  from p3 d have p3': "snd (connect_handler empty_environ w_gs_no_creds initial_state)
        = ([StError missing_credentials], Stopped)
      \<and> \<not> connected_state (fst (connect_handler empty_environ w_gs_no_creds initial_state))"
    by (simp only: simp_thms)
  from p4 have p4': "snd (connect_handler empty_environ w_s3_no_keys initial_state) = ([], Completed)
      \<and> connected_state (fst (connect_handler empty_environ w_s3_no_keys initial_state))"
    by (simp only: simp_thms)
  show ?thesis
    by (intro conjI a [THEN conjunct1] a [THEN conjunct2] p1 b p2
        c [THEN conjunct1] c [THEN conjunct2, THEN conjunct1]
        c [THEN conjunct2, THEN conjunct2, THEN conjunct1]
        c [THEN conjunct2, THEN conjunct2, THEN conjunct2, THEN conjunct1]
        c [THEN conjunct2, THEN conjunct2, THEN conjunct2, THEN conjunct2]
        d p3' [THEN conjunct1] p3' [THEN conjunct2] e [THEN conjunct1] e [THEN conjunct2]
        p4' [THEN conjunct1] p4' [THEN conjunct2])
qed

section \<open>Going up one level\<close>

lemma split_nonempty: "split c s \<noteq> []"
  by (induction s) (auto split: list.splits)

lemma split_append_sep: "split c (s @ [c]) = split c s @ [[]]"
  by (induction s) (auto split: list.splits simp add: split_nonempty)

lemma split_no_sep: "seg \<in> set (split c s) \<Longrightarrow> c \<notin> set seg"
  by (induction s arbitrary: seg) (auto split: if_splits list.splits)

lemma hd_split: "hd (split c s) = takeWhile (\<lambda>x. x \<noteq> c) s"
  by (induction s) (auto split: list.splits simp add: split_nonempty)

lemma last_split_nonempty: "s \<noteq> [] \<Longrightarrow> last s \<noteq> c \<Longrightarrow> last (split c s) \<noteq> []"
proof (induction s)
  case Nil
  then show ?case by simp
next
  case (Cons a s)
  show ?case
  proof (cases "s = []")
    case True
    with Cons.prems show ?thesis by simp
  next
    case False
    with Cons.prems have "last (split c s) \<noteq> []" using Cons.IH by simp
    then show ?thesis using split_nonempty [of c s] by (auto split: list.splits)
  qed
qed

lemma rstrip_id: "b = [] \<or> last b \<noteq> CHR ''/'' \<Longrightarrow> rstrip_chars ''/'' b = b"
  by (cases b rule: rev_cases) (auto simp add: rstrip_chars_def)

lemma rstrip_append_slash: "rstrip_chars ''/'' (b @ ''/'') = rstrip_chars ''/'' b"
  by (simp add: rstrip_chars_def)

lemma go_up_new_without:
  "go_up prefix = rebuild_url (fst (strip_scheme prefix)) (new_without (snd (strip_scheme prefix)))"
  by (simp add: go_up_def Let_def)

lemma goUp_spec_normalised:
  "goUp_spec sch (rstrip_chars ''/'' body @ ''/'') = Some (rebuild_url sch (new_without body))"
proof -
  let ?r = "rstrip_chars ''/'' body"
  have s: "split (CHR ''/'') (?r @ ''/'') = split (CHR ''/'') ?r @ [[]]"
    using split_append_sep [of "CHR ''/''" ?r] by simp
  have l: "length (split (CHR ''/'') ?r) > 1 \<or> length (split (CHR ''/'') ?r) = 1"
    using split_nonempty [of "CHR ''/''" ?r] by (cases "split (CHR ''/'') ?r") auto
  show ?thesis
    unfolding goUp_spec_def new_without_def s using l by (auto simp add: Let_def)
qed

lemma goUp_spec_unslashed:
  assumes "body \<noteq> []" and "last body \<noteq> CHR ''/''"
  shows "goUp_spec sch body = Some (rebuild_url sch (new_without body))"
proof -
  have r: "rstrip_chars ''/'' body = body" using assms by (simp add: rstrip_id)
  have n: "last (split (CHR ''/'') body) \<noteq> []"
    using assms by (rule last_split_nonempty)
  have l: "length (split (CHR ''/'') body) > 1 \<or> length (split (CHR ''/'') body) = 1"
    using split_nonempty [of "CHR ''/''" body] by (cases "split (CHR ''/'') body") auto
  show ?thesis
    unfolding goUp_spec_def new_without_def r using n l by (auto simp add: Let_def)
qed

lemma goUp_spec_single_slash:
  assumes "body \<noteq> []" and "\<not> endswith body ''//''"
  shows "goUp_spec sch body = Some (rebuild_url sch (new_without body))"
proof (cases "last body = CHR ''/''")
  case False
  with assms(1) show ?thesis by (rule goUp_spec_unslashed)
next
  case True
  with assms(1) obtain c where b: "body = c @ ''/''"
    by (metis append_butlast_last_id)
  have c: "c = [] \<or> last c \<noteq> CHR ''/''"
  proof (rule ccontr)
    assume "\<not> (c = [] \<or> last c \<noteq> CHR ''/'')"
    then obtain d where "c = d @ ''/''" by (metis append_butlast_last_id)
    with b have "endswith body ''//''" by (simp add: endswith_def)
    with assms(2) show False by simp
  qed
  then have "rstrip_chars ''/'' body = c"
    unfolding b by (simp add: rstrip_append_slash rstrip_id)
  then have "rstrip_chars ''/'' body @ ''/'' = body" using b by simp
  with goUp_spec_normalised [of sch body] show ?thesis by simp
qed

lemma rstrip_decompose:
  "\<exists>t. body = rstrip_chars ''/'' body @ t \<and> (\<forall>x \<in> set t. x = CHR ''/'')"
proof -
  let ?P = "\<lambda>c. c \<in> set ''/''"
  have "rev body = takeWhile ?P (rev body) @ dropWhile ?P (rev body)" by simp
  then have "body = rev (dropWhile ?P (rev body)) @ rev (takeWhile ?P (rev body))"
    by (metis rev_append rev_rev_ident)
  moreover have "\<forall>x \<in> set (rev (takeWhile ?P (rev body))). x = CHR ''/''"
    by (auto dest: set_takeWhileD)
  ultimately show ?thesis unfolding rstrip_chars_def by blast
qed

lemma first_segment_rstrip:
  "takeWhile (\<lambda>x. x \<noteq> CHR ''/'') (rstrip_chars ''/'' body) = takeWhile (\<lambda>x. x \<noteq> CHR ''/'') body"
proof -
  obtain t where b: "body = rstrip_chars ''/'' body @ t" and t: "\<forall>x \<in> set t. x = CHR ''/''"
    using rstrip_decompose by blast
  let ?r = "rstrip_chars ''/'' body"
  have tt: "takeWhile (\<lambda>x. x \<noteq> CHR ''/'') t = []"
    using t by (cases t) auto
  have "takeWhile (\<lambda>x. x \<noteq> CHR ''/'') (?r @ t) = takeWhile (\<lambda>x. x \<noteq> CHR ''/'') ?r"
  proof (cases "\<forall>x \<in> set ?r. x \<noteq> CHR ''/''")
    case True
    then have a: "takeWhile (\<lambda>x. x \<noteq> CHR ''/'') ?r = ?r" by (simp add: takeWhile_eq_all_conv)
    from True have "takeWhile (\<lambda>x. x \<noteq> CHR ''/'') (?r @ t) = ?r @ takeWhile (\<lambda>x. x \<noteq> CHR ''/'') t"
      by (simp add: takeWhile_append2)
    then show ?thesis by (simp only: a tt append_Nil2)
  next
    case False
    then obtain x where "x \<in> set ?r" and "\<not> x \<noteq> CHR ''/''" by blast
    then show ?thesis by (rule takeWhile_append1)
  qed
  with b show ?thesis by simp
qed

lemma takeWhile_upto_sep:
  "c \<notin> set p \<Longrightarrow> takeWhile (\<lambda>x. x \<noteq> c) (p @ c # rest) = p"
  by (induction p) auto

lemma first_segment_join:
  assumes "CHR ''/'' \<notin> set p"
  shows "takeWhile (\<lambda>x. x \<noteq> CHR ''/'') (join ''/'' (p # ps) @ ''/'') = p"
proof (cases ps)
  case Nil
  with assms show ?thesis by (simp add: takeWhile_upto_sep)
next
  case (Cons q qs)
  with assms show ?thesis by (simp add: takeWhile_upto_sep)
qed

lemma first_segment_new_without:
  "takeWhile (\<lambda>x. x \<noteq> CHR ''/'') (new_without body) = takeWhile (\<lambda>x. x \<noteq> CHR ''/'') body"
proof -
  let ?parts = "split (CHR ''/'') (rstrip_chars ''/'' body)"
  obtain p ps where ps: "?parts = p # ps"
    using split_nonempty [of "CHR ''/''" "rstrip_chars ''/'' body"] by (cases ?parts) auto
  have p: "p = takeWhile (\<lambda>x. x \<noteq> CHR ''/'') body"
    using hd_split [of "CHR ''/''" "rstrip_chars ''/'' body"] ps by (simp add: first_segment_rstrip)
  have np: "CHR ''/'' \<notin> set p"
    using split_no_sep [of p "CHR ''/''" "rstrip_chars ''/'' body"] ps by simp
  show ?thesis
  proof (cases "length ?parts > 1")
    case True
    with ps obtain qs where "butlast ?parts = p # qs"
      by (cases ps) (auto simp add: ps)
    with True np p show ?thesis
      by (simp add: new_without_def Let_def first_segment_join)
  next
    case False
    with ps np show ?thesis
      using p by (simp add: new_without_def Let_def takeWhile_upto_sep)
  qed
qed

lemma strip_scheme_schemes:
  "fst (strip_scheme prefix) = ''s3'' \<or> fst (strip_scheme prefix) = ''gs'' \<or> fst (strip_scheme prefix) = []"
  by (simp add: strip_scheme_def)

lemma strip_scheme_rebuild:
  "sch = ''s3'' \<or> sch = ''gs'' \<Longrightarrow> strip_scheme (rebuild_url sch body) = (sch, body)"
  by (auto simp add: strip_scheme_def rebuild_url_def startswith_def)

lemma detect_scheme_strip:
  "detect_scheme prefix = fst (strip_scheme prefix)"
  by (auto simp add: detect_scheme_def strip_scheme_def startswith_def)

lemma select_files_state: "v_state (select_files inp st msgs dirs files) = st"
  by (simp add: select_files_def split: sum.splits)

lemma go_up_connected:
  assumes "connected_state st"
  shows "connected_state (st\<lparr>ss_prefix := Some (go_up (current_prefix st))\<rparr>)"
proof -
  let ?p = "current_prefix st"
  have ne: "go_up ?p \<noteq> []" by (simp add: go_up_new_without rebuild_url_def)
  show ?thesis
  proof (cases "ss_scheme st")
    case (Some s)
    with assms ne show ?thesis
      by (simp add: connected_state_def current_prefix_def current_scheme_def)
  next
    case None
    with assms have d: "fst (strip_scheme ?p) \<noteq> []"
      by (simp add: connected_state_def current_scheme_def detect_scheme_strip)
    then have k: "fst (strip_scheme ?p) = ''s3'' \<or> fst (strip_scheme ?p) = ''gs''"
      using strip_scheme_schemes [of ?p] by blast
    have "fst (strip_scheme (go_up ?p)) = fst (strip_scheme ?p)"
      unfolding go_up_new_without using strip_scheme_rebuild [OF k] by simp
    with d have "detect_scheme (go_up ?p) \<noteq> []" by (simp add: detect_scheme_strip)
    with None assms ne show ?thesis
      by (simp add: connected_state_def current_prefix_def current_scheme_def)
  qed
qed

lemma browse_go_up:
  assumes "connected_state st" and "up_button inp" and "\<not> open_button inp"
  shows "v_state (browse ls inp st) = st\<lparr>ss_prefix := Some (go_up (current_prefix st))\<rparr>"
proof -
  from assms(1) obtain fs where fs: "ss_fs st = Some fs"
    by (auto simp add: connected_state_def)
  from assms(1) have c: "\<not> (current_prefix st = [] \<or> current_scheme st = [])"
    by (simp add: connected_state_def)
  show ?thesis
    using fs c assms(2,3) by (simp add: browse_def Let_def select_files_state)
qed

text \<open>
  Against the wording of claim C8: the key \<open>bucket/a//x.csv\<close> listed under \<open>bucket/a/\<close> gives the
  folder \<open>bucket/a//\<close>; from that prefix the wording (one trailing empty segment ignored)
  leads to \<open>bucket/a/\<close>, the code to \<open>bucket/\<close>.
\<close>

theorem go_up_double_slash_counterexample:
  "fst (snd (list_cloud ls_empty_segment anon_s3 ''s3'' ''s3://bucket/a/'')) = [''s3://bucket/a//'']
   \<and> strip_scheme ''s3://bucket/a//'' = (''s3'', ''bucket/a//'')
   \<and> goUp_spec ''s3'' ''bucket/a//'' = Some ''s3://bucket/a/''
   \<and> go_up ''s3://bucket/a//'' = ''s3://bucket/''"
  by (simp add: go_up_eval list_eval ls_empty_segment_def)

text \<open>
  Claim C8, amended. For every prefix, with (scheme, body) what \<open>strip_scheme\<close> gives: going
  up removes all trailing slashes of the body before it splits the body on \<open>/\<close>; then, if more
  than one segment remains, it drops the last one and joins the rest with a trailing \<open>/\<close>, and
  if one segment remains the new body is that segment and \<open>/\<close>. This is the procedure of the
  claim (which ignores one trailing empty segment) applied to the body with its trailing
  slashes reduced to one, and it is that procedure on the body itself whenever the body is
  not empty and does not end in two slashes. From \<open>bucket/x/y/\<close> it gives \<open>bucket/x/\<close>, from
  \<open>bucket/x/\<close> it gives \<open>bucket/\<close>. The result keeps a recognised scheme and the first segment
  of the body (the bucket name), and a connected session stays connected, with the new
  prefix stored.
\<close>

theorem go_up_one_level:
  assumes "strip_scheme prefix = (sch, body)"
  shows "go_up prefix = rebuild_url sch (new_without body)
       \<and> goUp_spec sch (rstrip_chars ''/'' body @ ''/'') = Some (go_up prefix)
       \<and> (body \<noteq> [] \<and> \<not> endswith body ''//'' \<longrightarrow> goUp_spec sch body = Some (go_up prefix))
       \<and> go_up ''s3://bucket/x/y/'' = ''s3://bucket/x/'' \<and> go_up ''s3://bucket/x/'' = ''s3://bucket/''
       \<and> go_up ''gs://bucket/x/y/'' = ''gs://bucket/x/'' \<and> go_up ''gs://bucket/x/'' = ''gs://bucket/''
       \<and> (sch \<noteq> [] \<longrightarrow>
            fst (strip_scheme (go_up prefix)) = sch
            \<and> takeWhile (\<lambda>x. x \<noteq> CHR ''/'') (snd (strip_scheme (go_up prefix)))
                = takeWhile (\<lambda>x. x \<noteq> CHR ''/'') body)
       \<and> (connected_state st \<and> current_prefix st = prefix \<longrightarrow>
            connected_state (st\<lparr>ss_prefix := Some (go_up prefix)\<rparr>))
       \<and> (connected_state st \<and> current_prefix st = prefix \<and> up_button inp \<and> \<not> open_button inp \<longrightarrow>
            v_state (browse ls inp st) = st\<lparr>ss_prefix := Some (go_up prefix)\<rparr>)"
proof -
  have g: "go_up prefix = rebuild_url sch (new_without body)"
    using assms by (simp add: go_up_new_without)
  have n: "goUp_spec sch (rstrip_chars ''/'' body @ ''/'') = Some (go_up prefix)"
    by (simp only: g goUp_spec_normalised)
  have l: "body \<noteq> [] \<and> \<not> endswith body ''//'' \<longrightarrow> goUp_spec sch body = Some (go_up prefix)"
    by (simp add: g goUp_spec_single_slash)
  have e: "go_up ''s3://bucket/x/y/'' = ''s3://bucket/x/'' \<and> go_up ''s3://bucket/x/'' = ''s3://bucket/''
       \<and> go_up ''gs://bucket/x/y/'' = ''gs://bucket/x/'' \<and> go_up ''gs://bucket/x/'' = ''gs://bucket/''"
    by (simp add: go_up_eval)
  have b: "sch \<noteq> [] \<longrightarrow>
            fst (strip_scheme (go_up prefix)) = sch
            \<and> takeWhile (\<lambda>x. x \<noteq> CHR ''/'') (snd (strip_scheme (go_up prefix)))
                = takeWhile (\<lambda>x. x \<noteq> CHR ''/'') body"
  proof
    assume "sch \<noteq> []"
    then have k: "sch = ''s3'' \<or> sch = ''gs''"
      using strip_scheme_schemes [of prefix] assms by simp
    show "fst (strip_scheme (go_up prefix)) = sch
            \<and> takeWhile (\<lambda>x. x \<noteq> CHR ''/'') (snd (strip_scheme (go_up prefix)))
                = takeWhile (\<lambda>x. x \<noteq> CHR ''/'') body"
      by (simp add: g strip_scheme_rebuild [OF k] first_segment_new_without)
  qed
  have c: "connected_state st \<and> current_prefix st = prefix \<longrightarrow>
            connected_state (st\<lparr>ss_prefix := Some (go_up prefix)\<rparr>)"
    using go_up_connected [of st] by blast
  have u: "connected_state st \<and> current_prefix st = prefix \<and> up_button inp \<and> \<not> open_button inp \<longrightarrow>
            v_state (browse ls inp st) = st\<lparr>ss_prefix := Some (go_up prefix)\<rparr>"
    using browse_go_up [of st inp ls] by blast
  show ?thesis
    by (intro conjI g n l e [THEN conjunct1] e [THEN conjunct2, THEN conjunct1]
        e [THEN conjunct2, THEN conjunct2, THEN conjunct1]
        e [THEN conjunct2, THEN conjunct2, THEN conjunct2] b c u)
qed

theorem go_up_one_level_witness:
  "strip_scheme ''s3://bucket/x/y/'' = (''s3'', ''bucket/x/y/'')
   \<and> ''bucket/x/y/'' \<noteq> [] \<and> \<not> endswith ''bucket/x/y/'' ''//'' \<and> ''s3'' \<noteq> []
   \<and> connected_state ex_deep \<and> current_prefix ex_deep = ''s3://bucket/x/y/''
   \<and> up_button ex_up \<and> \<not> open_button ex_up
   \<and> goUp_spec ''s3'' ''bucket/x/y/'' = Some ''s3://bucket/x/''
   \<and> fst (strip_scheme (go_up ''s3://bucket/x/y/'')) = ''s3''
   \<and> takeWhile (\<lambda>x. x \<noteq> CHR ''/'') (snd (strip_scheme (go_up ''s3://bucket/x/y/''))) = ''bucket''
   \<and> connected_state (ex_deep\<lparr>ss_prefix := Some ''s3://bucket/x/''\<rparr>)
   \<and> v_state (browse ls_denied ex_up ex_deep) = ex_deep\<lparr>ss_prefix := Some ''s3://bucket/x/''\<rparr>"
proof -
  have a: "strip_scheme ''s3://bucket/x/y/'' = (''s3'', ''bucket/x/y/'')"
    by (simp add: strip_scheme_def startswith_def)
  have b: "''bucket/x/y/'' \<noteq> [] \<and> \<not> endswith ''bucket/x/y/'' ''//''"
    by (simp add: endswith_def)
  have c: "''s3'' \<noteq> []" by simp
  have d: "connected_state ex_deep \<and> current_prefix ex_deep = ''s3://bucket/x/y/''"
    by (simp add: ex_deep_def connected_state_def current_prefix_def current_scheme_def)
  have e: "connected_state ex_deep \<and> current_prefix ex_deep = ''s3://bucket/x/y/''
      \<and> up_button ex_up \<and> \<not> open_button ex_up"
    using d by (simp add: ex_up_def)
  note t = go_up_one_level [where st = ex_deep and inp = ex_up and ls = ls_denied, OF a]
  note t2 = t [THEN conjunct2]
  note t3 = t2 [THEN conjunct2]
  note t4 = t3 [THEN conjunct2]
  note t8 = t4 [THEN conjunct2, THEN conjunct2, THEN conjunct2, THEN conjunct2]
  note t9 = t8 [THEN conjunct2]
  have g: "go_up ''s3://bucket/x/y/'' = ''s3://bucket/x/''" by (rule t4 [THEN conjunct1])
  have p3: "goUp_spec ''s3'' ''bucket/x/y/'' = Some ''s3://bucket/x/''"
    using t3 [THEN conjunct1, THEN mp, OF b] by (simp only: g)
  have p8: "fst (strip_scheme (go_up ''s3://bucket/x/y/'')) = ''s3''
      \<and> takeWhile (\<lambda>x. x \<noteq> CHR ''/'') (snd (strip_scheme (go_up ''s3://bucket/x/y/'')))
          = takeWhile (\<lambda>x. x \<noteq> CHR ''/'') ''bucket/x/y/''"
    by (rule t8 [THEN conjunct1, THEN mp, OF c])
  have p8': "takeWhile (\<lambda>x. x \<noteq> CHR ''/'') (snd (strip_scheme (go_up ''s3://bucket/x/y/''))) = ''bucket''"
    using p8 [THEN conjunct2] by simp
  have p9: "connected_state (ex_deep\<lparr>ss_prefix := Some ''s3://bucket/x/''\<rparr>)"
    using t9 [THEN conjunct1, THEN mp, OF d] by (simp only: g)
  have p10: "v_state (browse ls_denied ex_up ex_deep) = ex_deep\<lparr>ss_prefix := Some ''s3://bucket/x/''\<rparr>"
    using t9 [THEN conjunct2, THEN mp, OF e] by (simp only: g)
  show ?thesis
    by (intro conjI a b [THEN conjunct1] b [THEN conjunct2] c d [THEN conjunct1] d [THEN conjunct2]
        e [THEN conjunct2, THEN conjunct2, THEN conjunct1]
        e [THEN conjunct2, THEN conjunct2, THEN conjunct2]
        p3 p8 [THEN conjunct1] p8' p9 p10)
qed

section \<open>Selecting folders and files\<close>











end
